theory Spec2Isabelle
  imports Complex_Main
begin

section \<open>JavaScript values and built-ins used by the sync pipeline\<close>

text \<open>
  The pipeline (DataSyncScript of the sync-data script, SimplizeService, CompanyModel
  and config/database.ts) moves untyped JSON payloads into a wide SQL table. The objects
  \<open>CompanySummary\<close> and \<open>Company\<close> have about seventy optional properties each, which
  the code only copies; they are modelled as maps from the property name to its value,
  \<open>None\<close> being \<open>undefined\<close>. The property names and column names below are the
  source's own, in the source's order.

  Numbers of a payload are never computed with, so a \<open>real\<close> stands for them.
  Strings are byte strings: \<open>toUpperCase\<close> and \<open>trim\<close> are modelled on ASCII
  (tickers are alphanumeric codes), other bytes are left as they are.
\<close>

datatype jsdate =
    InvalidDate
  | LocalTime int int int int int int
    \<comment> \<open>\<open>new Date(year, monthIndex, day, hours, minutes, seconds)\<close> in local time,
        the components as passed (the year after the two-digit rule)\<close>

datatype jsval =
    JStr string
  | JNum real
  | JBool bool
  | JNull
  | JDate jsdate

type_synonym jsobj = "string \<Rightarrow> jsval option"

text \<open>Truthiness of a property value, as in \<open>if (x)\<close>, \<open>x && y\<close> and \<open>x || y\<close>.\<close>

fun truthy :: "jsval option \<Rightarrow> bool" where
  "truthy None = False"
| "truthy (Some (JStr s)) = (s \<noteq> [])"
| "truthy (Some (JNum n)) = (n \<noteq> 0)"
| "truthy (Some (JBool b)) = b"
| "truthy (Some JNull) = False"
| "truthy (Some (JDate d)) = True"

definition js_or :: "jsval option \<Rightarrow> jsval option \<Rightarrow> jsval option" where
  "js_or a b = (if truthy a then a else b)"

text \<open>\<open>n || d\<close> on an optional number: \<open>undefined\<close>, \<open>NaN\<close> (both \<open>None\<close>) and 0 give \<open>d\<close>.\<close>

definition num_or :: "int option \<Rightarrow> int \<Rightarrow> int" where
  "num_or n d = (case n of None \<Rightarrow> d | Some v \<Rightarrow> if v = 0 then d else v)"

definition upper_char :: "char \<Rightarrow> char" where
  "upper_char c =
     (let n = (of_char c :: nat)
      in if 97 \<le> n \<and> n \<le> 122 then char_of (n - 32) else c)"

definition toUpperCase :: "string \<Rightarrow> string" where
  "toUpperCase s = map upper_char s"

definition is_space :: "char \<Rightarrow> bool" where
  "is_space c = (let n = (of_char c :: nat) in (9 \<le> n \<and> n \<le> 13) \<or> n = 32)"

definition trim :: "string \<Rightarrow> string" where
  "trim s = rev (dropWhile is_space (rev (dropWhile is_space s)))"

text \<open>\<open>Array.prototype.slice(start, end)\<close>, negative indices counting from the end.\<close>

definition js_slice :: "'a list \<Rightarrow> int \<Rightarrow> int \<Rightarrow> 'a list" where
  "js_slice xs start end =
     (let len = int (length xs);
          k = (if start < 0 then max (len + start) 0 else min start len);
          final = (if end < 0 then max (len + end) 0 else min end len)
      in take (nat (final - k)) (drop (nat k) xs))"

text \<open>\<open>str.split(c)\<close> for a one-character separator: empty pieces are kept.\<close>

fun split_on :: "char \<Rightarrow> string \<Rightarrow> string list" where
  "split_on c [] = [[]]"
| "split_on c (x # xs) =
     (if x = c then [] # split_on c xs
      else (case split_on c xs of
              [] \<Rightarrow> [[x]]
            | p # ps \<Rightarrow> (x # p) # ps))"

text \<open>\<open>parts[i]\<close>: \<open>undefined\<close> out of range.\<close>

definition at_index :: "'a list \<Rightarrow> nat \<Rightarrow> 'a option" where
  "at_index xs i = (if i < length xs then Some (xs ! i) else None)"

definition nonempty :: "string option \<Rightarrow> bool" where
  "nonempty p = (case p of None \<Rightarrow> False | Some s \<Rightarrow> s \<noteq> [])"

text \<open>
  \<open>parseInt(s)\<close> without a radix: leading white space, an optional sign, a \<open>0x\<close> prefix
  for hexadecimal, then the longest run of digits; \<open>None\<close> is \<open>NaN\<close>.
\<close>

definition digit_val :: "char \<Rightarrow> nat option" where
  "digit_val c =
     (let n = (of_char c :: nat)
      in if 48 \<le> n \<and> n \<le> 57 then Some (n - 48)
         else if 97 \<le> n \<and> n \<le> 102 then Some (n - 87)
         else if 65 \<le> n \<and> n \<le> 70 then Some (n - 55)
         else None)"

definition is_digit_in :: "nat \<Rightarrow> char \<Rightarrow> bool" where
  "is_digit_in radix c = (case digit_val c of None \<Rightarrow> False | Some d \<Rightarrow> d < radix)"

definition digits_value :: "nat \<Rightarrow> string \<Rightarrow> nat" where
  "digits_value radix ds =
     foldl (\<lambda>acc c. acc * radix + (case digit_val c of None \<Rightarrow> 0 | Some d \<Rightarrow> d)) 0 ds"

definition parse_digits :: "nat \<Rightarrow> string \<Rightarrow> nat option" where
  "parse_digits radix s =
     (let ds = takeWhile (is_digit_in radix) s
      in if ds = [] then None else Some (digits_value radix ds))"

definition parse_unsigned :: "string \<Rightarrow> nat option" where
  "parse_unsigned s =
     (case s of
        a # b # rest \<Rightarrow>
          (if a = CHR ''0'' \<and> (b = CHR ''x'' \<or> b = CHR ''X'')
           then parse_digits 16 rest else parse_digits 10 s)
      | _ \<Rightarrow> parse_digits 10 s)"

definition parseInt :: "string \<Rightarrow> int option" where
  "parseInt str =
     (let s = dropWhile is_space str
      in case s of
           [] \<Rightarrow> None
         | c # rest \<Rightarrow>
             (if c = CHR ''-'' then map_option (\<lambda>n. - int n) (parse_unsigned rest)
              else if c = CHR ''+'' then map_option int (parse_unsigned rest)
              else map_option int (parse_unsigned s)))"

text \<open>
  The \<open>Date\<close> constructor with numeric components: any \<open>NaN\<close> gives an invalid date, a
  year from 0 to 99 means 1900 + year. Components out of their calendar range are kept
  as passed.
\<close>

definition makeDate ::
  "int option \<Rightarrow> int option \<Rightarrow> int option \<Rightarrow> int option \<Rightarrow> int option \<Rightarrow> int option \<Rightarrow> jsdate"
  where
  "makeDate y mo d h mi s =
     (case (y, mo, d, h, mi, s) of
        (Some y', Some mo', Some d', Some h', Some mi', Some s') \<Rightarrow>
          LocalTime (if 0 \<le> y' \<and> y' \<le> 99 then 1900 + y' else y') mo' d' h' mi' s'
      | _ \<Rightarrow> InvalidDate)"

section \<open>Record Transformer (SimplizeService.transformSimplizeData)\<close>

datatype warning =
    FailedAnalysisDate jsval
  | FailedPriceTimestamp jsval

text \<open>
  The first \<open>try\<close> block. A truthy value that is not a string has no \<open>includes\<close>
  method: the call throws, the \<open>catch\<close> logs the warning and the field stays
  \<open>undefined\<close>. \<open>dateParse\<close> is the engine's \<open>new Date(string)\<close>.
\<close>

definition parseAnalysisUpdated ::
  "(string \<Rightarrow> jsdate) \<Rightarrow> jsval option \<Rightarrow> jsval option \<times> warning list" where
  "parseAnalysisUpdated dateParse v =
     (if truthy v then
        (case v of
           Some (JStr dateStr) \<Rightarrow>
             (if CHR ''/'' \<in> set dateStr then
                (let dateParts = split_on CHR ''/'' dateStr;
                     day = at_index dateParts 0;
                     month = at_index dateParts 1;
                     year = at_index dateParts 2
                 in if nonempty day \<and> nonempty month \<and> nonempty year then
                      (Some (JDate (makeDate
                         (Option.bind year parseInt)
                         (map_option (\<lambda>m. m - 1) (Option.bind month parseInt))
                         (Option.bind day parseInt)
                         (Some 0) (Some 0) (Some 0))), [])
                    else (None, []))
              else (Some (JDate (dateParse dateStr)), []))
         | Some other \<Rightarrow> (None, [FailedAnalysisDate other])
         | None \<Rightarrow> (None, []))
      else (None, []))"

definition parsePriceTimestamp :: "jsval option \<Rightarrow> jsval option \<times> warning list" where
  "parsePriceTimestamp v =
     (if truthy v then
        (case v of
           Some (JStr str) \<Rightarrow>
             (let parts = split_on CHR '' '' str;
                  datePart = at_index parts 0;
                  timePart = at_index parts 1
              in if nonempty datePart \<and> nonempty timePart then
                   (let dateParts = split_on CHR ''/'' (the datePart);
                        timeParts = split_on CHR '':'' (the timePart);
                        day = at_index dateParts 0;
                        month = at_index dateParts 1;
                        year = at_index dateParts 2;
                        hour = at_index timeParts 0;
                        minute = at_index timeParts 1;
                        second = at_index timeParts 2
                    in if nonempty day \<and> nonempty month \<and> nonempty year \<and>
                          nonempty hour \<and> nonempty minute \<and> nonempty second then
                         (Some (JDate (makeDate
                            (Option.bind year parseInt)
                            (map_option (\<lambda>m. m - 1) (Option.bind month parseInt))
                            (Option.bind day parseInt)
                            (Option.bind hour parseInt)
                            (Option.bind minute parseInt)
                            (Option.bind second parseInt))), [])
                       else (None, []))
                 else (None, []))
         | Some other \<Rightarrow> (None, [FailedPriceTimestamp other])
         | None \<Rightarrow> (None, []))
      else (None, []))"

text \<open>
  The properties of the returned object that are plain copies, as (Company property,
  CompanySummary property), in the order of the object literal.
\<close>

definition copied_fields :: "(string \<times> string) list" where
  "copied_fields =
    [(''ticker'', ''ticker''), (''nameEn'', ''nameEn''),
     (''industryActivity'', ''industryActivity''),
     (''bcIndustryGroupId'', ''bcIndustryGroupId''),
     (''bcIndustryGroupSlug'', ''bcIndustryGroupSlug''),
     (''bcIndustryGroupCode'', ''bcIndustryGroupCode''),
     (''bcIndustryGroupType'', ''bcIndustryGroupType''),
     (''bcEconomicSectorId'', ''bcEconomicSectorId''),
     (''bcEconomicSectorSlug'', ''bcEconomicSectorSlug''),
     (''bcEconomicSectorName'', ''bcEconomicSectorName''),
     (''website'', ''website''), (''mainService'', ''mainService''),
     (''businessLine'', ''businessLine''), (''businessStrategy'', ''businessStrategy''),
     (''businessRisk'', ''businessRisk''), (''businessOverall'', ''businessOverall''),
     (''detailInfo'', ''detailInfo''), (''marketCap'', ''marketCap''),
     (''outstandingSharesValue'', ''outstandingSharesValue''),
     (''stockExchange'', ''stockExchange''), (''priceClose'', ''priceClose''),
     (''netChange'', ''netChange''), (''pctChange'', ''pctChange''),
     (''priceReference'', ''priceReferrance''),
     (''priceOpen'', ''priceOpen''), (''priceFloor'', ''priceFloor''),
     (''priceLow'', ''priceLow''), (''priceHigh'', ''priceHigh''),
     (''priceCeiling'', ''priceCeiling''), (''priceType'', ''priceType''),
     (''volume10dAvg'', ''volume10dAvg''), (''volume'', ''volume''),
     (''peRatio'', ''peRatio''), (''pbRatio'', ''pbRatio''), (''epsRatio'', ''epsRatio''),
     (''bookValue'', ''bookValue''), (''freeFloatRate'', ''freeFloatRate''),
     (''valuationPoint'', ''valuationPoint''), (''growthPoint'', ''growthPoint''),
     (''passPerformancePoint'', ''passPerformancePoint''),
     (''financialHealthPoint'', ''financialHealthPoint''),
     (''dividendPoint'', ''dividendPoint''), (''imageUrl'', ''imageUrl''),
     (''dividendYieldCurrent'', ''dividendYieldCurrent''), (''beta5y'', ''beta5y''),
     (''pricePctChg7d'', ''pricePctChg7d''), (''pricePctChg30d'', ''pricePctChg30d''),
     (''pricePctChgYtd'', ''pricePctChgYtd''), (''pricePctChg1y'', ''pricePctChg1y''),
     (''pricePctChg3y'', ''pricePctChg3y''), (''pricePctChg5y'', ''pricePctChg5y''),
     (''companyQuality'', ''companyQuality''),
     (''overallRiskLevel'', ''overallRiskLevel''),
     (''qualityValuation'', ''qualityValuation''), (''taSignal1d'', ''taSignal1d''),
     (''watchlistCount'', ''watchlistCount''), (''roe'', ''roe''), (''roa'', ''roa''),
     (''revenue5yGrowth'', ''revenue5yGrowth''),
     (''netIncome5yGrowth'', ''netIncome5yGrowth''),
     (''revenueLtmGrowth'', ''revenueLtmGrowth''),
     (''netIncomeLtmGrowth'', ''netIncomeLtmGrowth''),
     (''revenueGrowthQoq'', ''revenueGrowthQoq''),
     (''netIncomeGrowthQoq'', ''netIncomeGrowthQoq''),
     (''type'', ''type''), (''country'', ''country'')]"

text \<open>
  The Transformer returns the Company object and the warnings it logged. Apart from
  the copies, \<open>nameVi\<close> is \<open>summary.nameVi || summary.name\<close> and the two dates are
  the parsed values.
\<close>

definition transformSimplizeData ::
  "(string \<Rightarrow> jsdate) \<Rightarrow> jsobj \<Rightarrow> jsobj \<times> warning list" where
  "transformSimplizeData dateParse summary =
     (let (analysisUpdated, w1) = parseAnalysisUpdated dateParse (summary ''analysisUpdated'');
          (priceTimestamp, w2) = parsePriceTimestamp (summary ''priceTimeStamp'')
      in ((\<lambda>k. if k = ''nameVi'' then js_or (summary ''nameVi'') (summary ''name'')
                else if k = ''analysisUpdated'' then analysisUpdated
                else if k = ''priceTimestamp'' then priceTimestamp
                else (case map_of copied_fields k of
                        None \<Rightarrow> None
                      | Some src \<Rightarrow> summary src)),
          w1 @ w2))"

section \<open>Column types and errors of the store\<close>

text \<open>
  The types that \<open>initializeDatabase\<close> declares for the data columns of the table
  \<open>companies\<close>, and the errors a statement can end in.
\<close>

datatype col_type =
    TEXT
  | VARCHAR nat
  | INTEGER
  | BIGINT
  | DECIMAL nat nat
  | DATE
  | TIMESTAMP

datatype db_error =
    NotNullViolation string
  | Rejected string

section \<open>The external source and the trace of effects\<close>

text \<open>
  What one GET returns: an error (network failure, non-2xx status, timeout), or a body
  whose \<open>pageProps.summary\<close> is missing (\<open>Body None\<close>) or present.
\<close>

datatype response =
    RequestError string
  | Body "jsobj option"

text \<open>
  The effects the claims speak of, in the order they happen: an external request for a
  ticker, a timer wait in milliseconds, a warning of the Transformer. Other log lines
  are left out.
\<close>

datatype event =
    Request string
  | Sleep int
  | Warn warning

text \<open>
  What the code is injected with or reads from its surroundings: the source's answer to
  the n-th request for a ticker, the engine's date parser, the database's refusal of a
  statement for a reason outside its values (a lost connection), the database's reading
  of a value whose JavaScript type is not the one of the column (see \<open>pg_input\<close>),
  the database clock after a given history, and config.simplize.
\<close>

record env =
  source :: "string \<Rightarrow> nat \<Rightarrow> response"
  dateParse :: "string \<Rightarrow> jsdate"
  db_rejects :: "jsval option list \<Rightarrow> string option"
  db_cast :: "col_type \<Rightarrow> jsval \<Rightarrow> db_error + jsval"
  clock :: "event list \<Rightarrow> nat"
  cfg_maxRetries :: int
  cfg_requestDelay :: int

section \<open>SimplizeService.fetchCompanyData\<close>

text \<open>
  The service has a retry loop of its own, bounded by config.simplize.maxRetries: only
  a request error leads to another request, after \<open>requestDelay * attempt\<close>
  milliseconds. Every error is caught, so the result is always \<open>Inr\<close>; \<open>Inl\<close> stands
  for an exception reaching the caller.
\<close>

function fetchCompanyData_loop ::
  "env \<Rightarrow> string \<Rightarrow> int \<Rightarrow> event list \<Rightarrow> (string + jsobj option) \<times> event list" where
  "fetchCompanyData_loop e ticker attempt tr =
     (if attempt \<le> cfg_maxRetries e then
        (case source e ticker (count_list tr (Request ticker)) of
           Body (Some summary) \<Rightarrow>
             (let (companyData, ws) = transformSimplizeData (dateParse e) summary
              in (Inr (Some companyData), tr @ [Request ticker] @ map Warn ws))
         | Body None \<Rightarrow> (Inr None, tr @ [Request ticker])
         | RequestError msg \<Rightarrow>
             (if attempt = cfg_maxRetries e then (Inr None, tr @ [Request ticker])
              else fetchCompanyData_loop e ticker (attempt + 1)
                     (tr @ [Request ticker, Sleep (cfg_requestDelay e * attempt)])))
      else (Inr None, tr))"
  by pat_completeness auto
termination
  by (relation "measure (\<lambda>(e, ticker, attempt, tr). nat (cfg_maxRetries e + 1 - attempt))")
     auto

definition fetchCompanyData ::
  "env \<Rightarrow> string \<Rightarrow> event list \<Rightarrow> (string + jsobj option) \<times> event list" where
  "fetchCompanyData e ticker tr = fetchCompanyData_loop e ticker 1 tr"

section \<open>DataSyncScript.fetchWithRetry\<close>

record worker_result =
  ticker :: string
  success :: bool
  error :: "string option"
  data :: "jsobj option"
  attempts :: int

definition backoff :: "int \<Rightarrow> int" where
  "backoff attempt = min (1000 * 2 ^ nat (attempt - 1)) 5000"

function fetchWithRetry_loop ::
  "env \<Rightarrow> string \<Rightarrow> int \<Rightarrow> int \<Rightarrow> string \<Rightarrow> event list \<Rightarrow> worker_result \<times> event list"
  where
  "fetchWithRetry_loop e t maxRetries attempt lastError tr =
     (if attempt \<le> maxRetries then
        (case fetchCompanyData e t tr of
           (Inr (Some d), tr') \<Rightarrow>
             (\<lparr>ticker = t, success = True, error = None, data = Some d,
               attempts = attempt\<rparr>, tr')
         | (Inr None, tr') \<Rightarrow>
             fetchWithRetry_loop e t maxRetries (attempt + 1) (''No data returned for '' @ t)
               (if attempt < maxRetries then tr' @ [Sleep (backoff attempt)] else tr')
         | (Inl msg, tr') \<Rightarrow>
             fetchWithRetry_loop e t maxRetries (attempt + 1)
               (if msg \<noteq> [] then msg else ''Unknown error'')
               (if attempt < maxRetries then tr' @ [Sleep (backoff attempt)] else tr'))
      else (\<lparr>ticker = t, success = False, error = Some lastError, data = None,
              attempts = maxRetries\<rparr>, tr))"
  by pat_completeness auto
termination
  by (relation "measure (\<lambda>(e, t, maxRetries, attempt, lastError, tr).
                  nat (maxRetries + 1 - attempt))") auto

definition fetchWithRetry ::
  "env \<Rightarrow> string \<Rightarrow> int \<Rightarrow> event list \<Rightarrow> worker_result \<times> event list" where
  "fetchWithRetry e t maxRetries tr = fetchWithRetry_loop e t maxRetries 1 [] tr"

section \<open>Upsert Store (CompanyModel, table companies)\<close>

text \<open>
  The statement of \<open>upsert\<close> is
  \<open>INSERT INTO companies (insert_columns) VALUES ($1 .. $69)
    ON CONFLICT (ticker) DO UPDATE SET c = EXCLUDED.c, ..., updated_at = CURRENT_TIMESTAMP
    RETURNING *\<close>.
  The three lists are the statement's column list, the properties of \<open>companyData\<close>
  bound to the parameters, and the columns assigned in the conflict branch.
\<close>

definition insert_columns :: "string list" where
  "insert_columns =
   [''ticker'', ''name_vi'', ''name_en'', ''industry_activity'', ''bc_industry_group_id'',
    ''bc_industry_group_slug'', ''bc_industry_group_code'', ''bc_industry_group_type'',
    ''bc_economic_sector_id'', ''bc_economic_sector_slug'', ''bc_economic_sector_name'',
    ''website'', ''main_service'', ''business_line'', ''business_strategy'',
    ''business_risk'', ''business_overall'', ''detail_info'', ''market_cap'',
    ''outstanding_shares_value'', ''analysis_updated'', ''stock_exchange'', ''price_close'',
    ''net_change'', ''pct_change'', ''price_reference'', ''price_open'', ''price_floor'',
    ''price_low'', ''price_high'', ''price_ceiling'', ''price_timestamp'', ''price_type'',
    ''volume_10d_avg'', ''volume'', ''pe_ratio'', ''pb_ratio'', ''eps_ratio'',
    ''book_value'', ''free_float_rate'', ''valuation_point'', ''growth_point'',
    ''pass_performance_point'', ''financial_health_point'', ''dividend_point'',
    ''image_url'', ''dividend_yield_current'', ''beta_5y'', ''price_pct_chg_7d'',
    ''price_pct_chg_30d'', ''price_pct_chg_ytd'', ''price_pct_chg_1y'',
    ''price_pct_chg_3y'', ''price_pct_chg_5y'', ''company_quality'', ''overall_risk_level'',
    ''quality_valuation'', ''ta_signal_1d'', ''watchlist_count'', ''roe'', ''roa'',
    ''revenue_5y_growth'', ''net_income_5y_growth'', ''revenue_ltm_growth'',
    ''net_income_ltm_growth'', ''revenue_growth_qoq'', ''net_income_growth_qoq'', ''type'',
    ''country'']"

definition value_props :: "string list" where
  "value_props =
   [''ticker'', ''nameVi'', ''nameEn'', ''industryActivity'', ''bcIndustryGroupId'',
    ''bcIndustryGroupSlug'', ''bcIndustryGroupCode'', ''bcIndustryGroupType'',
    ''bcEconomicSectorId'', ''bcEconomicSectorSlug'', ''bcEconomicSectorName'', ''website'',
    ''mainService'', ''businessLine'', ''businessStrategy'', ''businessRisk'',
    ''businessOverall'', ''detailInfo'', ''marketCap'', ''outstandingSharesValue'',
    ''analysisUpdated'', ''stockExchange'', ''priceClose'', ''netChange'', ''pctChange'',
    ''priceReference'', ''priceOpen'', ''priceFloor'', ''priceLow'', ''priceHigh'',
    ''priceCeiling'', ''priceTimestamp'', ''priceType'', ''volume10dAvg'', ''volume'',
    ''peRatio'', ''pbRatio'', ''epsRatio'', ''bookValue'', ''freeFloatRate'',
    ''valuationPoint'', ''growthPoint'', ''passPerformancePoint'', ''financialHealthPoint'',
    ''dividendPoint'', ''imageUrl'', ''dividendYieldCurrent'', ''beta5y'',
    ''pricePctChg7d'', ''pricePctChg30d'', ''pricePctChgYtd'', ''pricePctChg1y'',
    ''pricePctChg3y'', ''pricePctChg5y'', ''companyQuality'', ''overallRiskLevel'',
    ''qualityValuation'', ''taSignal1d'', ''watchlistCount'', ''roe'', ''roa'',
    ''revenue5yGrowth'', ''netIncome5yGrowth'', ''revenueLtmGrowth'',
    ''netIncomeLtmGrowth'', ''revenueGrowthQoq'', ''netIncomeGrowthQoq'', ''type'',
    ''country'']"

definition conflict_update_columns :: "string list" where
  "conflict_update_columns =
   [''name_vi'', ''name_en'', ''industry_activity'', ''bc_industry_group_id'',
    ''bc_industry_group_slug'', ''bc_industry_group_code'', ''bc_industry_group_type'',
    ''bc_economic_sector_id'', ''bc_economic_sector_slug'', ''bc_economic_sector_name'',
    ''website'', ''main_service'', ''business_line'', ''business_strategy'',
    ''business_risk'', ''business_overall'', ''detail_info'', ''market_cap'',
    ''outstanding_shares_value'', ''analysis_updated'', ''stock_exchange'', ''price_close'',
    ''net_change'', ''pct_change'', ''price_reference'', ''price_open'', ''price_floor'',
    ''price_low'', ''price_high'', ''price_ceiling'', ''price_timestamp'', ''price_type'',
    ''volume_10d_avg'', ''volume'', ''pe_ratio'', ''pb_ratio'', ''eps_ratio'',
    ''book_value'', ''free_float_rate'', ''valuation_point'', ''growth_point'',
    ''pass_performance_point'', ''financial_health_point'', ''dividend_point'',
    ''image_url'', ''dividend_yield_current'', ''beta_5y'', ''price_pct_chg_7d'',
    ''price_pct_chg_30d'', ''price_pct_chg_ytd'', ''price_pct_chg_1y'',
    ''price_pct_chg_3y'', ''price_pct_chg_5y'', ''company_quality'', ''overall_risk_level'',
    ''quality_valuation'', ''ta_signal_1d'', ''watchlist_count'', ''roe'', ''roa'',
    ''revenue_5y_growth'', ''net_income_5y_growth'', ''revenue_ltm_growth'',
    ''net_income_ltm_growth'', ''revenue_growth_qoq'', ''net_income_growth_qoq'', ''type'',
    ''country'']"

text \<open>
  The declared type of each data column, in the order of the CREATE TABLE statement
  (which is the order of the INSERT's column list).
\<close>

definition column_types :: "(string \<times> col_type) list" where
  "column_types =
   [(''ticker'', VARCHAR 20), (''name_vi'', TEXT), (''name_en'', TEXT),
    (''industry_activity'', TEXT), (''bc_industry_group_id'', INTEGER),
    (''bc_industry_group_slug'', VARCHAR 100), (''bc_industry_group_code'', VARCHAR 20),
    (''bc_industry_group_type'', VARCHAR 20), (''bc_economic_sector_id'', INTEGER),
    (''bc_economic_sector_slug'', VARCHAR 100), (''bc_economic_sector_name'', VARCHAR 100),
    (''website'', TEXT), (''main_service'', TEXT), (''business_line'', TEXT),
    (''business_strategy'', TEXT), (''business_risk'', TEXT), (''business_overall'', TEXT),
    (''detail_info'', TEXT), (''market_cap'', BIGINT),
    (''outstanding_shares_value'', BIGINT), (''analysis_updated'', DATE),
    (''stock_exchange'', VARCHAR 10), (''price_close'', DECIMAL 15 2),
    (''net_change'', DECIMAL 15 2), (''pct_change'', DECIMAL 8 4),
    (''price_reference'', DECIMAL 15 2), (''price_open'', DECIMAL 15 2),
    (''price_floor'', DECIMAL 15 2), (''price_low'', DECIMAL 15 2),
    (''price_high'', DECIMAL 15 2), (''price_ceiling'', DECIMAL 15 2),
    (''price_timestamp'', TIMESTAMP), (''price_type'', INTEGER),
    (''volume_10d_avg'', BIGINT), (''volume'', BIGINT), (''pe_ratio'', DECIMAL 8 4),
    (''pb_ratio'', DECIMAL 8 4), (''eps_ratio'', DECIMAL 15 4),
    (''book_value'', DECIMAL 15 4), (''free_float_rate'', DECIMAL 8 4),
    (''valuation_point'', INTEGER), (''growth_point'', INTEGER),
    (''pass_performance_point'', INTEGER), (''financial_health_point'', INTEGER),
    (''dividend_point'', INTEGER), (''image_url'', TEXT),
    (''dividend_yield_current'', DECIMAL 8 4), (''beta_5y'', DECIMAL 8 4),
    (''price_pct_chg_7d'', DECIMAL 8 4), (''price_pct_chg_30d'', DECIMAL 8 4),
    (''price_pct_chg_ytd'', DECIMAL 8 4), (''price_pct_chg_1y'', DECIMAL 8 4),
    (''price_pct_chg_3y'', DECIMAL 8 4), (''price_pct_chg_5y'', DECIMAL 8 4),
    (''company_quality'', INTEGER), (''overall_risk_level'', VARCHAR 20),
    (''quality_valuation'', VARCHAR 10), (''ta_signal_1d'', VARCHAR 20),
    (''watchlist_count'', INTEGER), (''roe'', DECIMAL 8 4), (''roa'', DECIMAL 8 4),
    (''revenue_5y_growth'', DECIMAL 8 4), (''net_income_5y_growth'', DECIMAL 8 4),
    (''revenue_ltm_growth'', DECIMAL 8 4), (''net_income_ltm_growth'', DECIMAL 8 4),
    (''revenue_growth_qoq'', DECIMAL 8 4), (''net_income_growth_qoq'', DECIMAL 8 4),
    (''type'', VARCHAR 20), (''country'', VARCHAR 5)]"

text \<open>
  A row of the table: the serial \<open>id\<close>, the data columns by name (\<open>None\<close> is NULL)
  and the two timestamps, both defaulting to CURRENT_TIMESTAMP.
\<close>

record row =
  row_id :: nat
  cols :: "string \<Rightarrow> jsval option"
  created_at :: nat
  updated_at :: nat

record database =
  rows :: "row list"
  next_id :: nat

text \<open>The driver binds \<open>undefined\<close> and \<open>null\<close> as NULL.\<close>

definition prepareValue :: "jsval option \<Rightarrow> jsval option" where
  "prepareValue v = (case v of Some JNull \<Rightarrow> None | _ \<Rightarrow> v)"

text \<open>
  The driver sends every other parameter as text and PostgreSQL reads it in the type
  of the column, which can change the value without any error. For a value of the
  JavaScript type that the \<open>Company\<close> interface declares for the column:
  \<^item> a string is kept in TEXT; in VARCHAR(n) it is kept up to n characters, cut to n when
    only spaces exceed it, and refused otherwise;
  \<^item> a number must be whole and in range for INTEGER (32 bits) and BIGINT (64 bits); for
    DECIMAL(p, s) it is rounded to s decimal places, ties away from zero, and refused when
    the rounded value needs more than p - s digits before the point;
  \<^item> a valid Date is kept in TIMESTAMP and cut to its day in DATE (the seconds of the
    time of day, counted in whole days, carry into the day); an invalid Date is refused.
  For a value of another type the reading of its text is left to \<open>cast\<close>.
\<close>

definition round_scale :: "nat \<Rightarrow> real \<Rightarrow> real" where
  "round_scale s x =
     (if 0 \<le> x then of_int \<lfloor>x * 10 ^ s + 1 / 2\<rfloor> / 10 ^ s
      else - (of_int \<lfloor>- x * 10 ^ s + 1 / 2\<rfloor> / 10 ^ s))"

definition whole_in_range :: "real \<Rightarrow> nat \<Rightarrow> bool" where
  "whole_in_range x bits = (x = of_int \<lfloor>x\<rfloor> \<and> - (2 ^ (bits - 1)) \<le> x \<and> x < 2 ^ (bits - 1))"

fun pg_input :: "(col_type \<Rightarrow> jsval \<Rightarrow> db_error + jsval) \<Rightarrow> col_type \<Rightarrow> jsval \<Rightarrow> db_error + jsval"
  where
  "pg_input cast TEXT (JStr s) = Inr (JStr s)"
| "pg_input cast (VARCHAR n) (JStr s) =
     (if length s \<le> n then Inr (JStr s)
      else if list_all (\<lambda>c. c = CHR '' '') (drop n s) then Inr (JStr (take n s))
      else Inl (Rejected ''value too long for type character varying''))"
| "pg_input cast INTEGER (JNum x) =
     (if whole_in_range x 32 then Inr (JNum x)
      else Inl (Rejected ''invalid input for type integer''))"
| "pg_input cast BIGINT (JNum x) =
     (if whole_in_range x 64 then Inr (JNum x)
      else Inl (Rejected ''invalid input for type bigint''))"
| "pg_input cast (DECIMAL p s) (JNum x) =
     (let r = round_scale s x
      in if \<bar>r\<bar> < 10 ^ (p - s) then Inr (JNum r)
         else Inl (Rejected ''numeric field overflow''))"
| "pg_input cast DATE (JDate InvalidDate) = Inl (Rejected ''invalid input syntax for type date'')"
| "pg_input cast DATE (JDate (LocalTime y m d h mi sec)) =
     Inr (JDate (LocalTime y m (d + (h * 3600 + mi * 60 + sec) div 86400) 0 0 0))"
| "pg_input cast TIMESTAMP (JDate InvalidDate) =
     Inl (Rejected ''invalid input syntax for type timestamp'')"
| "pg_input cast TIMESTAMP (JDate (LocalTime y m d h mi sec)) =
     Inr (JDate (LocalTime y m d h mi sec))"
| "pg_input cast ty v = cast ty v"

text \<open>The value a column takes from a parameter; NULL stays NULL.\<close>

definition store_value ::
  "(col_type \<Rightarrow> jsval \<Rightarrow> db_error + jsval) \<Rightarrow> string \<Rightarrow> jsval option
     \<Rightarrow> db_error + jsval option" where
  "store_value cast c v =
     (case v of
        None \<Rightarrow> Inr None
      | Some x \<Rightarrow>
          (case map_of column_types c of
             None \<Rightarrow> Inl (Rejected ''column does not exist'')
           | Some ty \<Rightarrow>
               (case pg_input cast ty x of
                  Inl err \<Rightarrow> Inl err
                | Inr y \<Rightarrow> Inr (Some y))))"

fun store_all ::
  "(col_type \<Rightarrow> jsval \<Rightarrow> db_error + jsval) \<Rightarrow> (string \<times> jsval option) list
     \<Rightarrow> db_error + jsval option list" where
  "store_all cast [] = Inr []"
| "store_all cast ((c, v) # rest) =
     (case store_value cast c v of
        Inl err \<Rightarrow> Inl err
      | Inr x \<Rightarrow>
          (case store_all cast rest of
             Inl err \<Rightarrow> Inl err
           | Inr xs \<Rightarrow> Inr (x # xs)))"

text \<open>The row proposed for insertion, which the conflict branch calls EXCLUDED.\<close>

definition excluded_row :: "jsval option list \<Rightarrow> string \<Rightarrow> jsval option" where
  "excluded_row vals c =
     (case map_of (zip insert_columns vals) c of None \<Rightarrow> None | Some v \<Rightarrow> v)"

text \<open>
  \<open>ticker\<close> is \<open>UNIQUE NOT NULL\<close>. Without a row of the same ticker the proposed
  row is inserted with the next id and both timestamps at \<open>now\<close>; otherwise the
  existing row takes the proposed values of the assigned columns and \<open>updated_at\<close>
  becomes \<open>now\<close> (the trigger of \<open>initializeDatabase\<close> sets the same value). The
  sequence behind \<open>id\<close> advances on every executed INSERT.
\<close>

definition upsert ::
  "(jsval option list \<Rightarrow> string option) \<Rightarrow> (col_type \<Rightarrow> jsval \<Rightarrow> db_error + jsval) \<Rightarrow> nat
     \<Rightarrow> jsobj \<Rightarrow> database \<Rightarrow> db_error + (row \<times> database)" where
  "upsert rejects cast now companyData d =
     (let params = map (\<lambda>p. prepareValue (companyData p)) value_props
      in case rejects params of
           Some msg \<Rightarrow> Inl (Rejected msg)
         | None \<Rightarrow>
            (case store_all cast (zip insert_columns params) of
               Inl err \<Rightarrow> Inl err
             | Inr vals \<Rightarrow>
                (let excluded = excluded_row vals
                 in case excluded ''ticker'' of
                      None \<Rightarrow> Inl (NotNullViolation ''ticker'')
                    | Some t \<Rightarrow>
                       (case find (\<lambda>r. cols r ''ticker'' = Some t) (rows d) of
                          None \<Rightarrow>
                            (let r = \<lparr>row_id = next_id d, cols = excluded,
                                      created_at = now, updated_at = now\<rparr>
                             in Inr (r, \<lparr>rows = rows d @ [r],
                                         next_id = Suc (next_id d)\<rparr>))
                        | Some old \<Rightarrow>
                            (let r = old\<lparr>cols := (\<lambda>c. if c \<in> set conflict_update_columns
                                                       then excluded c else cols old c),
                                          updated_at := now\<rparr>
                             in Inr (r, \<lparr>rows = map (\<lambda>x. if cols x ''ticker'' = Some t
                                                           then r else x) (rows d),
                                         next_id = Suc (next_id d)\<rparr>))))))"

text \<open>
  \<open>SELECT * FROM companies WHERE ticker = $1\<close> with \<open>ticker.toUpperCase()\<close>; the
  first row or \<open>null\<close>. The callers in the pipeline only test the result for
  existence, so the row stands for the mapped Company.
\<close>

definition findByTicker :: "database \<Rightarrow> string \<Rightarrow> row option" where
  "findByTicker d t = find (\<lambda>r. cols r ''ticker'' = Some (JStr (toUpperCase t))) (rows d)"

section \<open>Sync Orchestrator: loadTickers and filterTickers\<close>

datatype file_content =
    NoFile
  | BadJson
  | NotArray
  | JsonArray "jsval list"

datatype load_error =
    FileNotFound
  | JsonSyntaxError
  | NotAnArray
  | TypeError

text \<open>\<open>tickers.map(ticker => ticker.toUpperCase().trim())\<close>: an element that is not a
  string has no \<open>toUpperCase\<close>, and the TypeError is rethrown.\<close>

fun upper_trim_all :: "jsval list \<Rightarrow> load_error + string list" where
  "upper_trim_all [] = Inr []"
| "upper_trim_all (JStr s # rest) =
     (case upper_trim_all rest of
        Inl err \<Rightarrow> Inl err
      | Inr out \<Rightarrow> Inr (trim (toUpperCase s) # out))"
| "upper_trim_all (other # rest) = Inl TypeError"

definition loadTickers :: "file_content \<Rightarrow> load_error + string list" where
  "loadTickers file =
     (case file of
        NoFile \<Rightarrow> Inl FileNotFound
      | BadJson \<Rightarrow> Inl JsonSyntaxError
      | NotArray \<Rightarrow> Inl NotAnArray
      | JsonArray tickers \<Rightarrow>
          (case upper_trim_all tickers of
             Inl err \<Rightarrow> Inl err
           | Inr out \<Rightarrow> Inr (filter (\<lambda>s. s \<noteq> []) out)))"

text \<open>The options of a run. A numeric option that is \<open>NaN\<close> acts like an absent one
  where the code reads it, so \<open>None\<close> stands for both.\<close>

record sync_options =
  batchSize :: "int option"
  startIndex :: "int option"
  endIndex :: "int option"
  specificTickers :: "string list option"
  skipExisting :: "bool option"
  workers :: "int option"
  maxRetries :: "int option"

text \<open>The three blocks of \<open>filterTickers\<close>, each working on the list the previous
  one left.\<close>

definition filterByIndex :: "sync_options \<Rightarrow> string list \<Rightarrow> string list \<Rightarrow> string list"
  where
  "filterByIndex options tickers filteredTickers =
     (if startIndex options \<noteq> None \<or> endIndex options \<noteq> None then
        (let start = num_or (startIndex options) 0;
             end = num_or (endIndex options) (int (length tickers))
         in js_slice filteredTickers start end)
      else filteredTickers)"

definition filterBySpecific :: "sync_options \<Rightarrow> string list \<Rightarrow> string list" where
  "filterBySpecific options filteredTickers =
     (case specificTickers options of
        None \<Rightarrow> filteredTickers
      | Some given \<Rightarrow>
          (if length given > 0 then
             (let specific = map (\<lambda>t. trim (toUpperCase t)) given
              in filter (\<lambda>ticker. ticker \<in> set specific) filteredTickers)
           else filteredTickers))"

text \<open>The loop that asks the store about each candidate in turn.\<close>

fun collectExisting :: "database \<Rightarrow> string list \<Rightarrow> string list \<Rightarrow> string list" where
  "collectExisting d [] existingTickers = existingTickers"
| "collectExisting d (t # rest) existingTickers =
     (case findByTicker d t of
        Some existing \<Rightarrow> collectExisting d rest (existingTickers @ [t])
      | None \<Rightarrow> collectExisting d rest existingTickers)"

definition filterExisting :: "database \<Rightarrow> sync_options \<Rightarrow> string list \<Rightarrow> string list"
  where
  "filterExisting d options filteredTickers =
     (if skipExisting options = Some True then
        (let existingTickers = collectExisting d filteredTickers []
         in filter (\<lambda>ticker. ticker \<notin> set existingTickers) filteredTickers)
      else filteredTickers)"

definition filterTickers :: "database \<Rightarrow> string list \<Rightarrow> sync_options \<Rightarrow> string list" where
  "filterTickers d tickers options =
     (let filteredTickers = tickers;
          filteredTickers = filterByIndex options tickers filteredTickers;
          filteredTickers = filterBySpecific options filteredTickers;
          filteredTickers = filterExisting d options filteredTickers
      in filteredTickers)"

section \<open>Concurrency Scheduler (DataSyncScript.syncWithWorkers)\<close>

record state =
  trace :: "event list"
  db :: database

text \<open>
  The loop that cuts the list into chunks adds \<open>concurrency\<close> to the index each time;
  with a negative value it never ends, which is the result \<open>None\<close>.
\<close>

partial_function (option) build_chunks ::
  "string list \<Rightarrow> int \<Rightarrow> int \<Rightarrow> string list list \<Rightarrow> string list list option" where
  "build_chunks tickers concurrency i chunks =
     (if i < int (length tickers)
      then build_chunks tickers concurrency (i + concurrency)
             (chunks @ [js_slice tickers i (i + concurrency)])
      else Some chunks)"

text \<open>
  One task of a chunk: an empty ticker gives \<open>null\<close>; otherwise the fetch with
  retries, and on success the upsert, whose failure is caught and counted as a failure
  of the ticker.
\<close>

definition processTicker :: "env \<Rightarrow> int \<Rightarrow> string \<Rightarrow> state \<Rightarrow> bool option \<times> state" where
  "processTicker e retries t st =
     (if t = [] then (None, st)
      else
        (let (result, tr') = fetchWithRetry e t retries (trace st)
         in case (success result, data result) of
              (True, Some d) \<Rightarrow>
                (case upsert (db_rejects e) (db_cast e) (clock e tr') d (db st) of
                   Inr (r, db') \<Rightarrow> (Some True, \<lparr>trace = tr', db = db'\<rparr>)
                 | Inl err \<Rightarrow> (Some False, st\<lparr>trace := tr'\<rparr>))
            | _ \<Rightarrow> (Some False, st\<lparr>trace := tr'\<rparr>)))"

text \<open>
  The tasks of a chunk run concurrently and \<open>Promise.all\<close> returns their results
  by position. The model runs them one after the other in the chunk's order, which is
  one of the schedules; the tally below reads the results by position only.
\<close>

fun processChunk :: "env \<Rightarrow> int \<Rightarrow> string list \<Rightarrow> state \<Rightarrow> bool option list \<times> state" where
  "processChunk e retries [] st = ([], st)"
| "processChunk e retries (t # rest) st =
     (let (x, st1) = processTicker e retries t st;
          (xs, st2) = processChunk e retries rest st1
      in (x # xs, st2))"

fun processChunks ::
  "env \<Rightarrow> int \<Rightarrow> nat \<Rightarrow> nat \<Rightarrow> string list list \<Rightarrow> nat \<times> nat \<times> state \<Rightarrow> nat \<times> nat \<times> state"
  where
  "processChunks e retries n chunkIndex [] acc = acc"
| "processChunks e retries n chunkIndex (chunk # rest) (successCount, failedCount, st) =
     (let (results, st1) = processChunk e retries chunk st;
          successCount' = successCount + length (filter (\<lambda>x. x = Some True) results);
          failedCount' = failedCount + length (filter (\<lambda>x. x = Some False) results);
          st2 = (if int chunkIndex < int n - 1
                 then st1\<lparr>trace := trace st1 @ [Sleep 1000]\<rparr> else st1)
      in processChunks e retries n (Suc chunkIndex) rest (successCount', failedCount', st2))"

definition syncWithWorkers ::
  "env \<Rightarrow> string list \<Rightarrow> sync_options \<Rightarrow> state \<Rightarrow> (nat \<times> nat \<times> state) option" where
  "syncWithWorkers e tickers options st =
     (let concurrency = num_or (workers options) 128;
          retries = num_or (maxRetries options) 3
      in case build_chunks tickers concurrency 0 [] of
           None \<Rightarrow> None
         | Some chunks \<Rightarrow>
             Some (processChunks e retries (length chunks) 0 chunks (0, 0, st)))"

text \<open>
  The partition as the specification words it: consecutive chunks of the given size,
  the last one possibly smaller. It is compared with \<open>build_chunks\<close> below.
\<close>

function spec_chunks :: "nat \<Rightarrow> 'a list \<Rightarrow> 'a list list" where
  "spec_chunks n xs =
     (if n = 0 \<or> xs = [] then [] else take n xs # spec_chunks n (drop n xs))"
  by pat_completeness auto
termination
  by (relation "measure (\<lambda>(n, xs). length xs)") auto

section \<open>Concrete scenarios\<close>

text \<open>A database that refuses every value whose type is not the column's.\<close>

definition no_cast :: "col_type \<Rightarrow> jsval \<Rightarrow> db_error + jsval" where
  "no_cast ty v = Inl (Rejected ''invalid input syntax'')"

text \<open>A source that never has data for any ticker, with the default configuration.\<close>

definition env_no_data :: env where
  "env_no_data =
     \<lparr>source = (\<lambda>t n. Body None), dateParse = (\<lambda>s. InvalidDate),
      db_rejects = (\<lambda>ps. None), db_cast = no_cast, clock = (\<lambda>tr. length tr),
      cfg_maxRetries = 3, cfg_requestDelay = 1000\<rparr>"

text \<open>A source whose every request fails, with the default configuration.\<close>

definition env_failing :: env where
  "env_failing =
     \<lparr>source = (\<lambda>t n. RequestError ''timeout of 30000ms exceeded''),
      dateParse = (\<lambda>s. InvalidDate),
      db_rejects = (\<lambda>ps. None), db_cast = no_cast, clock = (\<lambda>tr. length tr),
      cfg_maxRetries = 3, cfg_requestDelay = 1000\<rparr>"

text \<open>A payload for VIC as the source serves it, and a source that has it.\<close>

definition vic_summary :: jsobj where
  "vic_summary =
     map_of [(''ticker'', JStr ''VIC''), (''name'', JStr ''Tap doan Vingroup''),
             (''priceClose'', JNum 41000), (''priceReferrance'', JNum 40500),
             (''analysisUpdated'', JStr ''04/03/2024''),
             (''priceTimeStamp'', JStr ''05/03/2024 09:30:00'')]"

definition env_vic :: env where
  "env_vic =
     \<lparr>source = (\<lambda>t n. if t = ''VIC'' then Body (Some vic_summary) else Body None),
      dateParse = (\<lambda>s. InvalidDate),
      db_rejects = (\<lambda>ps. None), db_cast = no_cast, clock = (\<lambda>tr. length tr),
      cfg_maxRetries = 3, cfg_requestDelay = 1000\<rparr>"

text \<open>An empty table, a database that accepts every statement, and two records for
  VIC; the second has no \<open>nameVi\<close>, and a change in percent with eight decimal
  places.\<close>

definition empty_db :: database where
  "empty_db = \<lparr>rows = [], next_id = 1\<rparr>"

definition accept_all :: "jsval option list \<Rightarrow> string option" where
  "accept_all ps = None"

definition vic_first :: jsobj where
  "vic_first =
     map_of [(''ticker'', JStr ''VIC''), (''nameVi'', JStr ''Tap doan Vingroup''),
             (''priceClose'', JNum 41000)]"

definition vic_second :: jsobj where
  "vic_second =
     map_of [(''ticker'', JStr ''VIC''), (''priceClose'', JNum 42500),
             (''pctChange'', JNum (123456789 / 100000000))]"

text \<open>Options with nothing set, a universe of ten tickers, a start state, and a table
  that already holds VCB.\<close>

definition no_options :: sync_options where
  "no_options =
     \<lparr>batchSize = None, startIndex = None, endIndex = None, specificTickers = None,
      skipExisting = None, workers = None, maxRetries = None\<rparr>"

definition universe10 :: "string list" where
  "universe10 =
     [''ACB'', ''BID'', ''CTG'', ''FPT'', ''HPG'', ''MBB'', ''MSN'', ''VCB'', ''VIC'', ''VNM'']"

definition initial_state :: state where
  "initial_state = \<lparr>trace = [], db = empty_db\<rparr>"

definition db_vcb :: database where
  "db_vcb =
     \<lparr>rows = [\<lparr>row_id = 1,
                cols = (\<lambda>c. if c = ''ticker'' then Some (JStr ''VCB'') else None),
                created_at = 0, updated_at = 0\<rparr>],
      next_id = 2\<rparr>"

text \<open>Payloads whose price timestamp cannot be parsed, and a source that serves the
  ticker in lower case.\<close>

definition bad_date_summary :: jsobj where
  "bad_date_summary =
     map_of [(''ticker'', JStr ''VIC''), (''priceTimeStamp'', JStr ''not-a-date'')]"

definition nan_date_summary :: jsobj where
  "nan_date_summary =
     map_of [(''ticker'', JStr ''VIC''),
             (''priceTimeStamp'', JStr ''soon/ish/maybe at:some:time'')]"

definition lowercase_summary :: jsobj where
  "lowercase_summary = map_of [(''ticker'', JStr ''vic''), (''name'', JStr ''Vingroup'')]"

definition env_lowercase :: env where
  "env_lowercase =
     \<lparr>source = (\<lambda>t n. Body (Some lowercase_summary)),
      dateParse = (\<lambda>s. InvalidDate),
      db_rejects = (\<lambda>ps. None), db_cast = no_cast, clock = (\<lambda>tr. length tr),
      cfg_maxRetries = 3, cfg_requestDelay = 1000\<rparr>"

section \<open>Fetch-with-Retry: proofs\<close>

declare fetchCompanyData_loop.simps [simp del]
declare fetchWithRetry_loop.simps [simp del]

lemma upto_first: "a \<le> k \<Longrightarrow> [a..k] = a # [a + 1..k]"
  by (simp add: upto_rec1)

lemma count_Request_Warn [simp]: "count_list (map Warn ws) (Request t) = 0"
  by (induction ws) simp_all

lemma upto_1_3: "[1..3] = [1, 2, 3::int]"
  by (simp add: upto_rec1)

lemma fetchWithRetry_loop_done:
  "k < a \<Longrightarrow> fetchWithRetry_loop e t k a le tr =
     (\<lparr>ticker = t, success = False, error = Some le, data = None, attempts = k\<rparr>, tr)"
  by (subst fetchWithRetry_loop.simps) simp

text \<open>A body without \<open>pageProps.summary\<close> ends the service call after one request.\<close>

lemma fetchCompanyData_no_data:
  assumes "\<forall>n. source e t n = Body None"
  shows "fetchCompanyData e t tr =
           (Inr None, tr @ (if 1 \<le> cfg_maxRetries e then [Request t] else []))"
  unfolding fetchCompanyData_def
  by (subst fetchCompanyData_loop.simps) (simp add: assms)

lemma fetchWithRetry_loop_no_data:
  assumes src: "\<forall>n. source e t n = Body None"
  shows "a \<le> k \<Longrightarrow>
     fetchWithRetry_loop e t k a le tr =
       (\<lparr>ticker = t, success = False, error = Some (''No data returned for '' @ t),
         data = None, attempts = k\<rparr>,
        tr @ concat (map (\<lambda>n. (if 1 \<le> cfg_maxRetries e then [Request t] else []) @
                              (if n < k then [Sleep (min (1000 * 2 ^ nat (n - 1)) 5000)]
                               else []))
                      [a..k]))"
proof (induction "nat (k - a)" arbitrary: a le tr)
  case 0
  then have ak: "a = k" by simp
  show ?case
    by (subst fetchWithRetry_loop.simps)
       (simp add: ak fetchCompanyData_no_data [OF src] fetchWithRetry_loop_done)
next
  case (Suc m)
  then have lt: "a < k" and ale: "a \<le> k" and m: "m = nat (k - (a + 1))"
    and le': "a + 1 \<le> k" by auto
  show ?case
    by (subst fetchWithRetry_loop.simps)
       (simp add: lt ale fetchCompanyData_no_data [OF src] Suc.hyps(1) [OF m le']
          upto_first [of a k] backoff_def)
qed

text \<open>When every request fails, the service call makes all its own attempts.\<close>

lemma fetchCompanyData_loop_errors:
  assumes src: "\<forall>n. \<exists>msg. source e t n = RequestError msg"
  shows "fst (fetchCompanyData_loop e t a tr) = Inr None \<and>
         count_list (snd (fetchCompanyData_loop e t a tr)) (Request t) =
           count_list tr (Request t) + nat (cfg_maxRetries e + 1 - a)"
proof (induction "nat (cfg_maxRetries e + 1 - a)" arbitrary: a tr)
  case 0
  then show ?case by (subst (1 2) fetchCompanyData_loop.simps) simp
next
  case (Suc m)
  then have le: "a \<le> cfg_maxRetries e" and m: "m = nat (cfg_maxRetries e + 1 - (a + 1))"
    by auto
  obtain msg where msg: "source e t (count_list tr (Request t)) = RequestError msg"
    using src by blast
  show ?case
  proof (cases "a = cfg_maxRetries e")
    case True
    then show ?thesis
      by (subst (1 2) fetchCompanyData_loop.simps) (simp add: msg)
  next
    case False
    have step: "fetchCompanyData_loop e t a tr =
        fetchCompanyData_loop e t (a + 1) (tr @ [Request t, Sleep (cfg_requestDelay e * a)])"
      by (subst fetchCompanyData_loop.simps) (simp add: msg le False)
    show ?thesis
      using Suc.hyps(1) [OF m, of "tr @ [Request t, Sleep (cfg_requestDelay e * a)]"] le False
      by (simp add: step nat_add_distrib)
  qed
qed

lemma fetchWithRetry_loop_errors:
  assumes src: "\<forall>n. \<exists>msg. source e t n = RequestError msg"
  shows "a \<le> k + 1 \<Longrightarrow>
     success (fst (fetchWithRetry_loop e t k a le tr)) = False \<and>
     attempts (fst (fetchWithRetry_loop e t k a le tr)) = k \<and>
     count_list (snd (fetchWithRetry_loop e t k a le tr)) (Request t) =
       count_list tr (Request t) + nat (k + 1 - a) * nat (cfg_maxRetries e)"
proof (induction "nat (k + 1 - a)" arbitrary: a le tr)
  case 0
  then have "k < a" by simp
  then show ?case by (simp add: fetchWithRetry_loop_done)
next
  case (Suc m)
  then have le: "a \<le> k" and m: "m = nat (k + 1 - (a + 1))" and le1: "a + 1 \<le> k + 1"
    by auto
  obtain tr' where f: "fetchCompanyData e t tr = (Inr None, tr')"
    and c: "count_list tr' (Request t) = count_list tr (Request t) + nat (cfg_maxRetries e)"
    using fetchCompanyData_loop_errors [OF src, of 1 tr]
    by (cases "fetchCompanyData e t tr") (simp add: fetchCompanyData_def)
  have step: "fetchWithRetry_loop e t k a le tr =
      fetchWithRetry_loop e t k (a + 1) (''No data returned for '' @ t)
        (if a < k then tr' @ [Sleep (backoff a)] else tr')"
    by (subst fetchWithRetry_loop.simps) (simp add: le f)
  have n: "nat (k + 1 - a) = Suc (nat (k - a))" using le by simp
  show ?case
    using Suc.hyps(1) [OF m le1, of "''No data returned for '' @ t"
        "if a < k then tr' @ [Sleep (backoff a)] else tr'"]
    by (simp add: step c n)
qed

text \<open>A summary in the answer to the first request ends the fetch at once.\<close>

lemma fetchWithRetry_first_ok:
  assumes "source e t (count_list tr (Request t)) = Body (Some s)"
    and "1 \<le> k" and "1 \<le> cfg_maxRetries e"
  shows "fetchWithRetry e t k tr =
     (\<lparr>ticker = t, success = True, error = None,
       data = Some (fst (transformSimplizeData (dateParse e) s)), attempts = 1\<rparr>,
      tr @ Request t # map Warn (snd (transformSimplizeData (dateParse e) s)))"
proof -
  have "fetchCompanyData e t tr =
     (Inr (Some (fst (transformSimplizeData (dateParse e) s))),
      tr @ Request t # map Warn (snd (transformSimplizeData (dateParse e) s)))"
    unfolding fetchCompanyData_def
    by (subst fetchCompanyData_loop.simps) (simp add: assms split: prod.splits)
  then show ?thesis
    unfolding fetchWithRetry_def
    by (subst fetchWithRetry_loop.simps) (simp add: assms)
qed

text \<open>
  Claim C1. For a ticker whose payload has no summary on every attempt,
  \<open>fetchWithRetry\<close> with \<open>k \<ge> 1\<close> returns the failure result with the reason
  "No data returned for <ticker>" and \<open>attempts = k\<close>; the effects it adds are, for
  each attempt \<open>n = 1..k\<close> in turn, the service call (one request, when the service is
  configured to try at all) followed, if \<open>n < k\<close>, by a wait of
  \<open>min (1000 * 2^(n-1)) 5000\<close> milliseconds before attempt \<open>n + 1\<close>.
\<close>

theorem fetchWithRetry_no_data_exhausts:
  assumes "\<forall>n. source e t n = Body None" and "1 \<le> k"
  shows "fetchWithRetry e t k tr =
       (\<lparr>ticker = t, success = False, error = Some (''No data returned for '' @ t),
         data = None, attempts = k\<rparr>,
        tr @ concat (map (\<lambda>n. (if 1 \<le> cfg_maxRetries e then [Request t] else []) @
                              (if n < k then [Sleep (min (1000 * 2 ^ nat (n - 1)) 5000)]
                               else []))
                      [1..k]))"
  unfolding fetchWithRetry_def using assms by (rule fetchWithRetry_loop_no_data)

theorem fetchWithRetry_no_data_exhausts_witness:
  "(\<forall>n. source env_no_data ''BADTICKER'' n = Body None) \<and> (1::int) \<le> 3 \<and>
   fetchWithRetry env_no_data ''BADTICKER'' 3 [] =
     (\<lparr>ticker = ''BADTICKER'', success = False,
       error = Some ''No data returned for BADTICKER'', data = None, attempts = 3\<rparr>,
      [Request ''BADTICKER'', Sleep 1000, Request ''BADTICKER'', Sleep 2000,
       Request ''BADTICKER''])"
  using fetchWithRetry_no_data_exhausts [of env_no_data "''BADTICKER''" 3 "[]"]
  by (simp add: env_no_data_def upto_1_3)

text \<open>
  Claim C2, as the code has it. One attempt of \<open>fetchWithRetry\<close> is one call of the
  service, and the service retries a failed request itself, up to
  config.simplize.maxRetries times. So when every request fails, \<open>k\<close> attempts make
  \<open>k\<close> times config.simplize.maxRetries requests (none when that setting is below 1)
  and end in the failure result with \<open>attempts = k\<close>. When the first request is
  answered with a summary and the service is configured to try at least once, the
  result is the success with \<open>attempts = 1\<close>, after exactly one request and no wait,
  whatever \<open>k \<ge> 1\<close> is.
\<close>

theorem fetchWithRetry_request_count:
  "(1 \<le> k \<and> (\<forall>n. \<exists>msg. source e t n = RequestError msg) \<longrightarrow>
      success (fst (fetchWithRetry e t k tr)) = False \<and>
      attempts (fst (fetchWithRetry e t k tr)) = k \<and>
      count_list (snd (fetchWithRetry e t k tr)) (Request t) =
        count_list tr (Request t) + nat k * nat (cfg_maxRetries e)) \<and>
   (1 \<le> k \<and> 1 \<le> cfg_maxRetries e \<and>
    source e t (count_list tr (Request t)) = Body (Some s) \<longrightarrow>
      fetchWithRetry e t k tr =
        (\<lparr>ticker = t, success = True, error = None,
          data = Some (fst (transformSimplizeData (dateParse e) s)), attempts = 1\<rparr>,
         tr @ Request t # map Warn (snd (transformSimplizeData (dateParse e) s))))"
proof (intro conjI impI)
  assume h: "1 \<le> k \<and> (\<forall>n. \<exists>msg. source e t n = RequestError msg)"
  then have src: "\<forall>n. \<exists>msg. source e t n = RequestError msg" and k: "1 \<le> k + 1"
    by auto
  have n: "nat (k + 1 - 1) = nat k" by simp
  from fetchWithRetry_loop_errors [OF src k, of "[]" tr]
  show "success (fst (fetchWithRetry e t k tr)) = False"
    and "attempts (fst (fetchWithRetry e t k tr)) = k"
    and "count_list (snd (fetchWithRetry e t k tr)) (Request t) =
          count_list tr (Request t) + nat k * nat (cfg_maxRetries e)"
    unfolding fetchWithRetry_def n by blast+
next
  assume "1 \<le> k \<and> 1 \<le> cfg_maxRetries e \<and>
      source e t (count_list tr (Request t)) = Body (Some s)"
  then show "fetchWithRetry e t k tr =
        (\<lparr>ticker = t, success = True, error = None,
          data = Some (fst (transformSimplizeData (dateParse e) s)), attempts = 1\<rparr>,
         tr @ Request t # map Warn (snd (transformSimplizeData (dateParse e) s)))"
    by (simp add: fetchWithRetry_first_ok)
qed

theorem fetchWithRetry_request_count_witness:
  "((1::int) \<le> 2 \<and> (\<forall>n. \<exists>msg. source env_failing ''VIC'' n = RequestError msg)) \<and>
   success (fst (fetchWithRetry env_failing ''VIC'' 2 [])) = False \<and>
   attempts (fst (fetchWithRetry env_failing ''VIC'' 2 [])) = 2 \<and>
   count_list (snd (fetchWithRetry env_failing ''VIC'' 2 [])) (Request ''VIC'') = 6 \<and>
   ((1::int) \<le> 5 \<and> 1 \<le> cfg_maxRetries env_vic \<and>
    source env_vic ''VIC'' (count_list [] (Request ''VIC'')) = Body (Some vic_summary)) \<and>
   success (fst (fetchWithRetry env_vic ''VIC'' 5 [])) = True \<and>
   attempts (fst (fetchWithRetry env_vic ''VIC'' 5 [])) = 1 \<and>
   count_list (snd (fetchWithRetry env_vic ''VIC'' 5 [])) (Request ''VIC'') = 1"
proof -
  have a: "(1::int) \<le> 2 \<and> (\<forall>n. \<exists>msg. source env_failing ''VIC'' n = RequestError msg)"
    by (simp add: env_failing_def)
  have b: "(1::int) \<le> 5 \<and> 1 \<le> cfg_maxRetries env_vic \<and>
    source env_vic ''VIC'' (count_list [] (Request ''VIC'')) = Body (Some vic_summary)"
    by (simp add: env_vic_def)
  have c: "cfg_maxRetries env_failing = 3"
    by (simp add: env_failing_def)
  show ?thesis
    using a b
      fetchWithRetry_request_count [of 2 env_failing "''VIC''" "[]"]
      fetchWithRetry_request_count [of 5 env_vic "''VIC''" "[]" vic_summary]
    by (simp add: c)
qed

text \<open>
  Claim C2 as stated fails: with the default configuration (three tries inside the
  service) and a source whose every request fails, one attempt of \<open>fetchWithRetry\<close>
  makes three requests, not one.
\<close>

theorem fetchWithRetry_one_attempt_three_requests:
  "count_list (snd (fetchWithRetry env_failing ''VIC'' 1 [])) (Request ''VIC'') \<noteq> 1"
proof -
  have src: "\<forall>n. \<exists>msg. source env_failing ''VIC'' n = RequestError msg"
    by (simp add: env_failing_def)
  have "count_list (snd (fetchWithRetry env_failing ''VIC'' 1 [])) (Request ''VIC'') = 3"
    using fetchWithRetry_loop_errors [OF src, of 1 1 "[]" "[]"]
    by (simp add: fetchWithRetry_def env_failing_def)
  then show ?thesis by simp
qed

section \<open>Upsert Store: proofs\<close>

text \<open>The conflict branch assigns every inserted column except the key.\<close>

lemma insert_columns_split: "insert_columns = ''ticker'' # conflict_update_columns"
  by (simp add: insert_columns_def conflict_update_columns_def)

lemma length_insert_columns: "length insert_columns = 69"
  by (simp add: insert_columns_def)

lemma length_value_props: "length value_props = 69"
  by (simp add: value_props_def)

lemma distinct_insert_columns: "distinct insert_columns"
  by (simp add: insert_columns_def)

lemma ticker_not_updated: "''ticker'' \<notin> set conflict_update_columns"
  using distinct_insert_columns by (simp add: insert_columns_split)

lemma head_value_props: "value_props ! 0 = ''ticker''"
  by (simp add: value_props_def)

lemma excluded_row_nth:
  assumes "length vals = length insert_columns" and "i < length insert_columns"
  shows "excluded_row vals (insert_columns ! i) = vals ! i"
  using assms by (simp add: excluded_row_def map_of_zip_nth distinct_insert_columns)


lemma replace_keeps_keys:
  "f r = v \<Longrightarrow> map f (map (\<lambda>x. if f x = v then r else x) xs) = map f xs"
  by (induction xs) simp_all

lemma filter_key_absent:
  "v \<notin> f ` set xs \<Longrightarrow> filter (\<lambda>y. f y = v) xs = []"
  by (induction xs) auto

lemma filter_key_replace:
  "distinct (map f xs) \<Longrightarrow> v \<in> f ` set xs \<Longrightarrow> f r = v \<Longrightarrow>
   filter (\<lambda>y. f y = v) (map (\<lambda>x. if f x = v then r else x) xs) = [r]"
proof (induction xs)
  case Nil
  then show ?case by simp
next
  case (Cons x xs)
  show ?case
  proof (cases "f x = v")
    case True
    with Cons.prems have "v \<notin> f ` set xs" by auto
    then have "v \<notin> f ` set (map (\<lambda>x. if f x = v then r else x) xs)"
      by (auto simp: image_iff)
    then have "filter (\<lambda>y. f y = v) (map (\<lambda>x. if f x = v then r else x) xs) = []"
      by (rule filter_key_absent)
    with True Cons.prems show ?thesis by simp
  next
    case False
    with Cons show ?thesis by auto
  qed
qed

lemma find_key_append:
  "v \<notin> f ` set xs \<Longrightarrow> f r = v \<Longrightarrow> find (\<lambda>y. f y = v) (xs @ [r]) = Some r"
proof (induction xs)
  case Nil
  then show ?case by simp
next
  case (Cons x xs)
  then have "f x \<noteq> v" and "v \<notin> f ` set xs" by auto
  with Cons show ?case by simp
qed

lemma find_key_replace:
  "v \<in> f ` set xs \<Longrightarrow> f r = v \<Longrightarrow>
   find (\<lambda>y. f y = v) (map (\<lambda>x. if f x = v then r else x) xs) = Some r"
  by (induction xs) auto

text \<open>Every inserted column has a declared type, and a parameter list is converted
  value by value.\<close>

lemma column_types_names: "map fst column_types = insert_columns"
  by (simp add: column_types_def insert_columns_def)

lemma store_all_length: "store_all cast xs = Inr vals \<Longrightarrow> length vals = length xs"
  by (induction xs arbitrary: vals) (auto split: sum.splits)

lemma store_all_nth:
  "store_all cast xs = Inr vals \<Longrightarrow> i < length xs \<Longrightarrow>
   store_value cast (fst (xs ! i)) (snd (xs ! i)) = Inr (vals ! i)"
proof (induction xs arbitrary: vals i)
  case Nil
  then show ?case by simp
next
  case (Cons x xs)
  obtain c v where x: "x = (c, v)" by force
  from Cons.prems(1) obtain y ys where
    y: "store_value cast c v = Inr y" and ys: "store_all cast xs = Inr ys"
    and vals: "vals = y # ys"
    by (auto simp: x split: sum.splits)
  show ?case
  proof (cases i)
    case 0
    then show ?thesis by (simp add: x y vals)
  next
    case (Suc j)
    with Cons.prems(2) have "j < length xs" by simp
    from Cons.IH [OF ys this] show ?thesis by (simp add: Suc vals)
  qed
qed

lemma store_value_absent: "store_value cast c None = Inr None"
  by (simp add: store_value_def)

lemma store_value_ticker:
  "store_value cast ''ticker'' (Some (JStr t)) = Inr v \<Longrightarrow> v = Some (JStr (take 20 t))"
  by (auto simp: store_value_def column_types_def split: if_splits)

lemma store_value_text:
  "map_of column_types c = Some TEXT \<Longrightarrow>
   store_value cast c (Some (JStr s)) = Inr (Some (JStr s))"
  by (simp add: store_value_def)

lemma store_value_decimal:
  "map_of column_types c = Some (DECIMAL p s) \<Longrightarrow>
   store_value cast c (Some (JNum x)) = Inr v \<Longrightarrow> v = Some (JNum (round_scale s x))"
  by (auto simp: store_value_def Let_def split: if_splits)

lemma store_value_date:
  "map_of column_types c = Some DATE \<Longrightarrow>
   store_value cast c (Some (JDate (LocalTime y m d 0 0 0))) =
     Inr (Some (JDate (LocalTime y m d 0 0 0)))"
  by (simp add: store_value_def)

lemma upsert_effect:
  assumes acc: "rejects (map (\<lambda>p. prepareValue (c p)) value_props) = None"
    and conv: "store_all cast (zip insert_columns (map (\<lambda>p. prepareValue (c p)) value_props))
                 = Inr vals"
    and tick: "c ''ticker'' = Some (JStr t)"
    and uniq: "distinct (map (\<lambda>r. cols r ''ticker'') (rows d))"
  shows "\<exists>r d'. upsert rejects cast now c d = Inr (r, d') \<and>
           filter (\<lambda>x. cols x ''ticker'' = Some (JStr (take 20 t))) (rows d') = [r] \<and>
           find (\<lambda>x. cols x ''ticker'' = Some (JStr (take 20 t))) (rows d') = Some r \<and>
           distinct (map (\<lambda>r. cols r ''ticker'') (rows d')) \<and>
           (\<forall>i < length insert_columns. cols r (insert_columns ! i) = vals ! i) \<and>
           updated_at r = now \<and>
           created_at r =
             (case find (\<lambda>x. cols x ''ticker'' = Some (JStr (take 20 t))) (rows d) of
                None \<Rightarrow> now | Some old \<Rightarrow> created_at old) \<and>
           (find (\<lambda>x. cols x ''ticker'' = Some (JStr (take 20 t))) (rows d) = None \<longrightarrow>
              rows d' = rows d @ [r])"
proof -
  define params where "params = map (\<lambda>p. prepareValue (c p)) value_props"
  define k where "k = JStr (take 20 t)"
  have conv': "store_all cast (zip insert_columns params) = Inr vals"
    using conv by (simp add: params_def)
  have len: "length vals = length insert_columns"
    using store_all_length [OF conv']
    by (simp add: params_def length_value_props length_insert_columns)
  have nth: "\<And>i. i < length insert_columns \<Longrightarrow>
      excluded_row vals (insert_columns ! i) = vals ! i"
    using excluded_row_nth [OF len] by simp
  have "store_value cast (fst (zip insert_columns params ! 0))
          (snd (zip insert_columns params ! 0)) = Inr (vals ! 0)"
    by (rule store_all_nth [OF conv'])
       (simp add: params_def length_value_props length_insert_columns)
  then have "store_value cast ''ticker'' (Some (JStr t)) = Inr (vals ! 0)"
    by (simp add: params_def length_value_props length_insert_columns insert_columns_split
          head_value_props tick prepareValue_def)
  then have v0: "vals ! 0 = Some k"
    unfolding k_def by (rule store_value_ticker)
  have "excluded_row vals (insert_columns ! 0) = vals ! 0"
    by (rule nth) (simp add: length_insert_columns)
  then have ex_t: "excluded_row vals ''ticker'' = Some k"
    by (simp add: insert_columns_split v0)
  show ?thesis
    unfolding k_def [symmetric]
  proof (cases "find (\<lambda>x. cols x ''ticker'' = Some k) (rows d)")
    case None
    then have absent: "Some k \<notin> (\<lambda>r. cols r ''ticker'') ` set (rows d)"
      by (auto simp: find_None_iff)
    define r where "r = \<lparr>row_id = next_id d, cols = excluded_row vals,
                          created_at = now, updated_at = now\<rparr>"
    define d' where "d' = \<lparr>rows = rows d @ [r], next_id = Suc (next_id d)\<rparr>"
    have rows: "rows d' = rows d @ [r]" by (simp add: d'_def)
    have rt: "cols r ''ticker'' = Some k"
      by (simp add: r_def ex_t)
    have u: "upsert rejects cast now c d = Inr (r, d')"
      using acc None ex_t conv'
      by (simp add: upsert_def params_def [symmetric] r_def d'_def Let_def)
    have f0: "filter (\<lambda>x. cols x ''ticker'' = Some k) (rows d) = []"
      using absent by (rule filter_key_absent)
    have c1: "filter (\<lambda>x. cols x ''ticker'' = Some k) (rows d') = [r]"
      by (simp add: rows f0 rt)
    have c2: "find (\<lambda>x. cols x ''ticker'' = Some k) (rows d') = Some r"
      unfolding rows
      by (rule find_key_append [of "Some k" "\<lambda>r. cols r ''ticker''" "rows d" r,
            OF absent rt])
    have c3: "distinct (map (\<lambda>r. cols r ''ticker'') (rows d'))"
      using uniq absent by (simp add: rows rt)
    have c4: "\<forall>i < length insert_columns. cols r (insert_columns ! i) = vals ! i"
      using nth by (simp add: r_def)
    have c5: "updated_at r = now"
      by (simp add: r_def)
    have c6: "created_at r =
             (case find (\<lambda>x. cols x ''ticker'' = Some k) (rows d) of
                None \<Rightarrow> now | Some old \<Rightarrow> created_at old)"
      by (simp add: None r_def)
    have c7: "find (\<lambda>x. cols x ''ticker'' = Some k) (rows d) = None \<longrightarrow>
              rows d' = rows d @ [r]"
      by (simp add: rows)
    show "\<exists>r d'. upsert rejects cast now c d = Inr (r, d') \<and>
           filter (\<lambda>x. cols x ''ticker'' = Some k) (rows d') = [r] \<and>
           find (\<lambda>x. cols x ''ticker'' = Some k) (rows d') = Some r \<and>
           distinct (map (\<lambda>r. cols r ''ticker'') (rows d')) \<and>
           (\<forall>i < length insert_columns. cols r (insert_columns ! i) = vals ! i) \<and>
           updated_at r = now \<and>
           created_at r =
             (case find (\<lambda>x. cols x ''ticker'' = Some k) (rows d) of
                None \<Rightarrow> now | Some old \<Rightarrow> created_at old) \<and>
           (find (\<lambda>x. cols x ''ticker'' = Some k) (rows d) = None \<longrightarrow>
              rows d' = rows d @ [r])"
      by (rule exI [of _ r], rule exI [of _ d']) (intro conjI u c1 c2 c3 c4 c5 c6 c7)
  next
    case (Some old)
    then have old: "old \<in> set (rows d)" "cols old ''ticker'' = Some k"
      by (auto simp: find_Some_iff)
    then have present: "Some k \<in> (\<lambda>r. cols r ''ticker'') ` set (rows d)"
      by force
    define r where "r = old\<lparr>cols := (\<lambda>c. if c \<in> set conflict_update_columns
                                          then excluded_row vals c else cols old c),
                            updated_at := now\<rparr>"
    define d' where
      "d' = \<lparr>rows = map (\<lambda>x. if cols x ''ticker'' = Some k then r else x) (rows d),
             next_id = Suc (next_id d)\<rparr>"
    have rows: "rows d' = map (\<lambda>x. if cols x ''ticker'' = Some k then r else x) (rows d)"
      by (simp add: d'_def)
    have rt: "cols r ''ticker'' = Some k"
      by (simp add: r_def ticker_not_updated old)
    have u: "upsert rejects cast now c d = Inr (r, d')"
      using acc Some ex_t conv'
      by (simp add: upsert_def params_def [symmetric] r_def d'_def Let_def)
    have cols_r: "cols r (insert_columns ! i) = vals ! i"
      if i: "i < length insert_columns" for i
    proof (cases i)
      case 0
      then show ?thesis
        using rt by (simp add: insert_columns_split v0)
    next
      case (Suc j)
      with i have "insert_columns ! i \<in> set conflict_update_columns"
        by (simp add: insert_columns_split)
      then show ?thesis using nth [OF i] by (simp add: r_def)
    qed
    have c1: "filter (\<lambda>x. cols x ''ticker'' = Some k) (rows d') = [r]"
      unfolding rows
      by (rule filter_key_replace [of "\<lambda>r. cols r ''ticker''" "rows d" "Some k" r,
            OF uniq present rt])
    have c2: "find (\<lambda>x. cols x ''ticker'' = Some k) (rows d') = Some r"
      unfolding rows
      by (rule find_key_replace [of "Some k" "\<lambda>r. cols r ''ticker''" "rows d" r,
            OF present rt])
    have c3: "distinct (map (\<lambda>r. cols r ''ticker'') (rows d'))"
      unfolding rows
      by (simp only: uniq
            replace_keeps_keys [of "\<lambda>r. cols r ''ticker''" r "Some k" "rows d", OF rt])
    have c4: "\<forall>i < length insert_columns. cols r (insert_columns ! i) = vals ! i"
      using cols_r by blast
    have c5: "updated_at r = now"
      by (simp add: r_def)
    have c6: "created_at r =
             (case find (\<lambda>x. cols x ''ticker'' = Some k) (rows d) of
                None \<Rightarrow> now | Some old \<Rightarrow> created_at old)"
      by (simp add: Some r_def)
    have c7: "find (\<lambda>x. cols x ''ticker'' = Some k) (rows d) = None \<longrightarrow>
              rows d' = rows d @ [r]"
      by (simp add: Some)
    show "\<exists>r d'. upsert rejects cast now c d = Inr (r, d') \<and>
           filter (\<lambda>x. cols x ''ticker'' = Some k) (rows d') = [r] \<and>
           find (\<lambda>x. cols x ''ticker'' = Some k) (rows d') = Some r \<and>
           distinct (map (\<lambda>r. cols r ''ticker'') (rows d')) \<and>
           (\<forall>i < length insert_columns. cols r (insert_columns ! i) = vals ! i) \<and>
           updated_at r = now \<and>
           created_at r =
             (case find (\<lambda>x. cols x ''ticker'' = Some k) (rows d) of
                None \<Rightarrow> now | Some old \<Rightarrow> created_at old) \<and>
           (find (\<lambda>x. cols x ''ticker'' = Some k) (rows d) = None \<longrightarrow>
              rows d' = rows d @ [r])"
      by (rule exI [of _ r], rule exI [of _ d']) (intro conjI u c1 c2 c3 c4 c5 c6 c7)
  qed
qed

text \<open>
  Claim C3, as the code has it. For a table with unique tickers and two records with
  the same ticker that the database accepts, \<open>upsert\<close> of the first and then of the
  second leaves exactly one row with that ticker. Each column of the statement holds
  what the second record's value becomes in the column's declared type (NULL for an
  absent field, a number rounded to the scale of a DECIMAL column, a Date cut to its day
  in the DATE column) and nothing of the first record; \<open>updated_at\<close> is the time of the
  second call, and \<open>created_at\<close> is what the first call left: the time of the first
  call when it inserted the row.
\<close>

theorem upsert_twice_last_write_wins:
  assumes "rejects (map (\<lambda>p. prepareValue (c1 p)) value_props) = None"
    and "rejects (map (\<lambda>p. prepareValue (c2 p)) value_props) = None"
    and "store_all cast (zip insert_columns (map (\<lambda>p. prepareValue (c1 p)) value_props))
           = Inr vals1"
    and "store_all cast (zip insert_columns (map (\<lambda>p. prepareValue (c2 p)) value_props))
           = Inr vals2"
    and "c1 ''ticker'' = Some (JStr t)" and "c2 ''ticker'' = Some (JStr t)"
    and "distinct (map (\<lambda>r. cols r ''ticker'') (rows d0))"
  shows "\<exists>row1 d1 row2 d2.
      upsert rejects cast now1 c1 d0 = Inr (row1, d1) \<and>
      upsert rejects cast now2 c2 d1 = Inr (row2, d2) \<and>
      filter (\<lambda>x. cols x ''ticker'' = Some (JStr (take 20 t))) (rows d2) = [row2] \<and>
      (\<forall>i < length insert_columns.
         cols row2 (insert_columns ! i) = vals2 ! i \<and>
         store_value cast (insert_columns ! i) (prepareValue (c2 (value_props ! i)))
           = Inr (vals2 ! i)) \<and>
      updated_at row1 = now1 \<and> updated_at row2 = now2 \<and>
      created_at row2 = created_at row1 \<and>
      (find (\<lambda>x. cols x ''ticker'' = Some (JStr (take 20 t))) (rows d0) = None \<longrightarrow>
         created_at row1 = now1)"
proof -
  obtain row1 d1 where
    u1: "upsert rejects cast now1 c1 d0 = Inr (row1, d1)"
    and f1: "find (\<lambda>x. cols x ''ticker'' = Some (JStr (take 20 t))) (rows d1) = Some row1"
    and q1: "distinct (map (\<lambda>r. cols r ''ticker'') (rows d1))"
    and t1: "updated_at row1 = now1"
    and k1: "created_at row1 =
             (case find (\<lambda>x. cols x ''ticker'' = Some (JStr (take 20 t))) (rows d0) of
                None \<Rightarrow> now1 | Some old \<Rightarrow> created_at old)"
    using upsert_effect [of rejects c1 cast vals1 t d0 now1,
            OF assms(1) assms(3) assms(5) assms(7)]
    by blast
  obtain row2 d2 where
    u2: "upsert rejects cast now2 c2 d1 = Inr (row2, d2)"
    and g2: "filter (\<lambda>x. cols x ''ticker'' = Some (JStr (take 20 t))) (rows d2) = [row2]"
    and v2: "\<forall>i < length insert_columns. cols row2 (insert_columns ! i) = vals2 ! i"
    and t2: "updated_at row2 = now2"
    and k2: "created_at row2 =
             (case find (\<lambda>x. cols x ''ticker'' = Some (JStr (take 20 t))) (rows d1) of
                None \<Rightarrow> now2 | Some old \<Rightarrow> created_at old)"
    using upsert_effect [of rejects c2 cast vals2 t d1 now2,
            OF assms(2) assms(4) assms(6) q1]
    by blast
  have s2: "store_value cast (insert_columns ! i) (prepareValue (c2 (value_props ! i)))
              = Inr (vals2 ! i)"
    if i: "i < length insert_columns" for i
    using store_all_nth [OF assms(4), of i] i
    by (simp add: length_value_props length_insert_columns)
  have v2': "\<forall>i < length insert_columns.
         cols row2 (insert_columns ! i) = vals2 ! i \<and>
         store_value cast (insert_columns ! i) (prepareValue (c2 (value_props ! i)))
           = Inr (vals2 ! i)"
    using v2 s2 by blast
  have k2': "created_at row2 = created_at row1"
    using k2 by (simp only: f1 option.case)
  have k1': "find (\<lambda>x. cols x ''ticker'' = Some (JStr (take 20 t))) (rows d0) = None \<longrightarrow>
         created_at row1 = now1"
    using k1 by simp
  show ?thesis
    by (rule exI [of _ row1], rule exI [of _ d1], rule exI [of _ row2], rule exI [of _ d2])
       (intro conjI u1 u2 g2 v2' t1 t2 k2' k1')
qed

text \<open>The two records of the scenario are accepted; the second one's change in percent
  is stored with four decimal places.\<close>

lemma vic_first_accepted:
  "isl (store_all no_cast
          (zip insert_columns (map (\<lambda>p. prepareValue (vic_first p)) value_props))) = False"
  by code_simp

lemma vic_second_accepted:
  "isl (store_all no_cast
          (zip insert_columns (map (\<lambda>p. prepareValue (vic_second p)) value_props))) = False"
  by code_simp

lemma vic_second_stored:
  "projr (store_all no_cast
            (zip insert_columns (map (\<lambda>p. prepareValue (vic_second p)) value_props))) ! 24
     = Some (JNum (12346 / 10000))"
  "projr (store_all no_cast
            (zip insert_columns (map (\<lambda>p. prepareValue (vic_second p)) value_props))) ! 1
     = None"
  by code_simp+

lemma pct_change_column: "insert_columns ! 24 = ''pct_change''" "insert_columns ! 1 = ''name_vi''"
  by (simp_all add: insert_columns_def)

lemma Inr_projr: "isl x = False \<Longrightarrow> x = Inr (projr x)"
  by (cases x) simp_all

theorem upsert_twice_last_write_wins_witness:
  "(accept_all (map (\<lambda>p. prepareValue (vic_first p)) value_props) = None \<and>
    accept_all (map (\<lambda>p. prepareValue (vic_second p)) value_props) = None \<and>
    store_all no_cast (zip insert_columns (map (\<lambda>p. prepareValue (vic_first p)) value_props))
      = Inr (projr (store_all no_cast
               (zip insert_columns (map (\<lambda>p. prepareValue (vic_first p)) value_props)))) \<and>
    store_all no_cast (zip insert_columns (map (\<lambda>p. prepareValue (vic_second p)) value_props))
      = Inr (projr (store_all no_cast
               (zip insert_columns (map (\<lambda>p. prepareValue (vic_second p)) value_props)))) \<and>
    vic_first ''ticker'' = Some (JStr ''VIC'') \<and>
    vic_second ''ticker'' = Some (JStr ''VIC'') \<and>
    distinct (map (\<lambda>r. cols r ''ticker'') (rows empty_db)) \<and>
    find (\<lambda>x. cols x ''ticker'' = Some (JStr (take 20 ''VIC''))) (rows empty_db) = None) \<and>
   (\<exists>row1 d1 row2 d2.
      upsert accept_all no_cast 100 vic_first empty_db = Inr (row1, d1) \<and>
      upsert accept_all no_cast 250 vic_second d1 = Inr (row2, d2) \<and>
      filter (\<lambda>x. cols x ''ticker'' = Some (JStr ''VIC'')) (rows d2) = [row2] \<and>
      cols row2 ''pct_change'' = Some (JNum (12346 / 10000)) \<and>
      cols row2 ''name_vi'' = None \<and>
      updated_at row1 = 100 \<and> updated_at row2 = 250 \<and>
      created_at row2 = created_at row1 \<and> created_at row1 = 100)"
proof -
  let ?v1 = "projr (store_all no_cast
               (zip insert_columns (map (\<lambda>p. prepareValue (vic_first p)) value_props)))"
  let ?v2 = "projr (store_all no_cast
               (zip insert_columns (map (\<lambda>p. prepareValue (vic_second p)) value_props)))"
  have h1: "accept_all (map (\<lambda>p. prepareValue (vic_first p)) value_props) = None"
    and h2: "accept_all (map (\<lambda>p. prepareValue (vic_second p)) value_props) = None"
    by (simp_all add: accept_all_def)
  have h3: "store_all no_cast
              (zip insert_columns (map (\<lambda>p. prepareValue (vic_first p)) value_props)) = Inr ?v1"
    using vic_first_accepted by (rule Inr_projr)
  have h4: "store_all no_cast
              (zip insert_columns (map (\<lambda>p. prepareValue (vic_second p)) value_props)) = Inr ?v2"
    using vic_second_accepted by (rule Inr_projr)
  have h5: "vic_first ''ticker'' = Some (JStr ''VIC'')"
    and h6: "vic_second ''ticker'' = Some (JStr ''VIC'')"
    by (simp_all add: vic_first_def vic_second_def)
  have h7: "distinct (map (\<lambda>r. cols r ''ticker'') (rows empty_db))"
    by (simp add: empty_db_def)
  have e: "find (\<lambda>x. cols x ''ticker'' = Some (JStr (take 20 ''VIC''))) (rows empty_db) = None"
    by (simp add: empty_db_def)
  obtain row1 d1 row2 d2 where
    a1: "upsert accept_all no_cast 100 vic_first empty_db = Inr (row1, d1)"
    and a2: "upsert accept_all no_cast 250 vic_second d1 = Inr (row2, d2)"
    and a3: "filter (\<lambda>x. cols x ''ticker'' = Some (JStr (take 20 ''VIC''))) (rows d2) = [row2]"
    and a4: "\<forall>i < length insert_columns.
         cols row2 (insert_columns ! i) = ?v2 ! i \<and>
         store_value no_cast (insert_columns ! i) (prepareValue (vic_second (value_props ! i)))
           = Inr (?v2 ! i)"
    and a5: "updated_at row1 = 100" and a6: "updated_at row2 = 250"
    and a7: "created_at row2 = created_at row1"
    and a8: "find (\<lambda>x. cols x ''ticker'' = Some (JStr (take 20 ''VIC''))) (rows empty_db) = None
         \<longrightarrow> created_at row1 = 100"
    using upsert_twice_last_write_wins
            [of accept_all vic_first vic_second no_cast ?v1 ?v2 "''VIC''" empty_db 100 250,
             OF h1 h2 h3 h4 h5 h6 h7]
    by (elim exE conjE) (rule that)
  have a3': "filter (\<lambda>x. cols x ''ticker'' = Some (JStr ''VIC'')) (rows d2) = [row2]"
    using a3 by simp
  have i24: "24 < length insert_columns" and i1: "1 < length insert_columns"
    by (simp_all add: length_insert_columns)
  have "cols row2 (insert_columns ! 24) = ?v2 ! 24" and "cols row2 (insert_columns ! 1) = ?v2 ! 1"
    using a4 i24 i1 by blast+
  then have b1: "cols row2 ''pct_change'' = Some (JNum (12346 / 10000))"
    and b2: "cols row2 ''name_vi'' = None"
    by (simp_all only: pct_change_column vic_second_stored)
  have a8': "created_at row1 = 100"
    using a8 e by blast
  have ex: "\<exists>row1 d1 row2 d2.
      upsert accept_all no_cast 100 vic_first empty_db = Inr (row1, d1) \<and>
      upsert accept_all no_cast 250 vic_second d1 = Inr (row2, d2) \<and>
      filter (\<lambda>x. cols x ''ticker'' = Some (JStr ''VIC'')) (rows d2) = [row2] \<and>
      cols row2 ''pct_change'' = Some (JNum (12346 / 10000)) \<and>
      cols row2 ''name_vi'' = None \<and>
      updated_at row1 = 100 \<and> updated_at row2 = 250 \<and>
      created_at row2 = created_at row1 \<and> created_at row1 = 100"
    by (rule exI [of _ row1], rule exI [of _ d1], rule exI [of _ row2], rule exI [of _ d2])
       (intro conjI a1 a2 a3' b1 b2 a5 a6 a7 a8')
  show ?thesis
    by (intro conjI h1 h2 h3 h4 h5 h6 h7 e ex)
qed

text \<open>
  Claim C3 as stated fails: the second record has the change in percent 1.23456789,
  the column \<open>pct_change\<close> is DECIMAL(8,4), and the row left by the two calls holds
  1.2346, which is not the second record's value.
\<close>

theorem upsert_rounds_to_column_scale:
  "cols (fst (projr (upsert accept_all no_cast 250 vic_second
                       (snd (projr (upsert accept_all no_cast 100 vic_first empty_db))))))
     ''pct_change'' \<noteq> prepareValue (vic_second ''pctChange'')"
proof -
  let ?v1 = "projr (store_all no_cast
               (zip insert_columns (map (\<lambda>p. prepareValue (vic_first p)) value_props)))"
  let ?v2 = "projr (store_all no_cast
               (zip insert_columns (map (\<lambda>p. prepareValue (vic_second p)) value_props)))"
  have h1: "accept_all (map (\<lambda>p. prepareValue (vic_first p)) value_props) = None"
    and h2: "accept_all (map (\<lambda>p. prepareValue (vic_second p)) value_props) = None"
    by (simp_all add: accept_all_def)
  have h3: "store_all no_cast
              (zip insert_columns (map (\<lambda>p. prepareValue (vic_first p)) value_props)) = Inr ?v1"
    using vic_first_accepted by (rule Inr_projr)
  have h4: "store_all no_cast
              (zip insert_columns (map (\<lambda>p. prepareValue (vic_second p)) value_props)) = Inr ?v2"
    using vic_second_accepted by (rule Inr_projr)
  have h5: "vic_first ''ticker'' = Some (JStr ''VIC'')"
    and h6: "vic_second ''ticker'' = Some (JStr ''VIC'')"
    by (simp_all add: vic_first_def vic_second_def)
  have h7: "distinct (map (\<lambda>r. cols r ''ticker'') (rows empty_db))"
    by (simp add: empty_db_def)
  obtain row1 d1 where
    u1: "upsert accept_all no_cast 100 vic_first empty_db = Inr (row1, d1)"
    and q1: "distinct (map (\<lambda>r. cols r ''ticker'') (rows d1))"
    using upsert_effect [of accept_all vic_first no_cast ?v1 "''VIC''" empty_db 100,
            OF h1 h3 h5 h7]
    by blast
  obtain row2 d2 where
    u2: "upsert accept_all no_cast 250 vic_second d1 = Inr (row2, d2)"
    and v2: "\<forall>i < length insert_columns. cols row2 (insert_columns ! i) = ?v2 ! i"
    using upsert_effect [of accept_all vic_second no_cast ?v2 "''VIC''" d1 250,
            OF h2 h4 h6 q1]
    by blast
  have "24 < length insert_columns"
    by (simp add: length_insert_columns)
  then have "cols row2 (insert_columns ! 24) = ?v2 ! 24"
    using v2 by blast
  then have b: "cols row2 ''pct_change'' = Some (JNum (12346 / 10000))"
    by (simp only: pct_change_column vic_second_stored)
  have p: "prepareValue (vic_second ''pctChange'') = Some (JNum (123456789 / 100000000))"
    by (simp add: vic_second_def prepareValue_def)
  show ?thesis
    by (simp add: u1 u2 b p)
qed

section \<open>Filter: proofs\<close>

lemma collectExisting_filter:
  "collectExisting d xs acc = acc @ filter (\<lambda>t. findByTicker d t \<noteq> None) xs"
  by (induction xs arbitrary: acc) (auto split: option.splits)

lemma filter_not_in_filter:
  "filter (\<lambda>t. t \<notin> set (filter P xs)) xs = filter (\<lambda>t. \<not> P t) xs"
  by (rule filter_cong) auto

lemma filterExisting_skip:
  "skipExisting options = Some True \<Longrightarrow>
   filterExisting d options xs = filter (\<lambda>t. findByTicker d t = None) xs"
  unfolding filterExisting_def Let_def collectExisting_filter
  by (auto intro: filter_cong)

lemma slice_2_5:
  assumes "length u = 10"
  shows "js_slice u 2 5 = [u ! 2, u ! 3, u ! 4]"
proof -
  have "js_slice u 2 5 = take 3 (drop 2 u)"
    using assms by (simp add: js_slice_def)
  also have "\<dots> = [u ! 2, u ! 3, u ! 4]"
    using assms by (auto simp: list_eq_iff_nth_eq less_Suc_eq eval_nat_numeral)
  finally show ?thesis .
qed

lemma filterTickers_steps:
  "filterTickers d u options =
     filterExisting d options (filterBySpecific options (filterByIndex options u u))"
  by (simp add: filterTickers_def Let_def)

lemma filterByIndex_2_5:
  "length u = 10 \<Longrightarrow> startIndex options = Some 2 \<Longrightarrow> endIndex options = Some 5 \<Longrightarrow>
   filterByIndex options u u = [u ! 2, u ! 3, u ! 4]"
  by (simp add: filterByIndex_def num_or_def slice_2_5 Let_def)

section \<open>Scheduler: proofs\<close>

declare spec_chunks.simps [simp del]

lemma spec_chunks_Nil [simp]: "spec_chunks n [] = []"
  by (subst spec_chunks.simps) simp

lemma spec_chunks_step: "0 < n \<Longrightarrow> xs \<noteq> [] \<Longrightarrow> spec_chunks n xs = take n xs # spec_chunks n (drop n xs)"
  by (subst spec_chunks.simps) simp

lemma concat_spec_chunks: "0 < n \<Longrightarrow> concat (spec_chunks n xs) = xs"
proof (induction n xs rule: spec_chunks.induct)
  case (1 n xs)
  show ?case
  proof (cases "xs = []")
    case True
    then show ?thesis by simp
  next
    case False
    with 1 show ?thesis by (simp add: spec_chunks_step)
  qed
qed

lemma spec_chunks_lengths:
  "0 < n \<Longrightarrow> xs \<noteq> [] \<Longrightarrow>
   spec_chunks n xs \<noteq> [] \<and>
   (\<forall>ch \<in> set (butlast (spec_chunks n xs)). length ch = n) \<and>
   0 < length (last (spec_chunks n xs)) \<and> length (last (spec_chunks n xs)) \<le> n"
proof (induction n xs rule: spec_chunks.induct)
  case (1 n xs)
  have step: "spec_chunks n xs = take n xs # spec_chunks n (drop n xs)"
    using "1.prems" by (rule spec_chunks_step)
  show ?case
  proof (cases "drop n xs = []")
    case True
    then have "spec_chunks n xs = [take n xs]"
      using step by simp
    moreover have "length xs \<le> n" using True by simp
    ultimately show ?thesis using "1.prems" by simp
  next
    case False
    then have lt: "n < length xs" by simp
    let ?rest = "spec_chunks n (drop n xs)"
    have ih: "?rest \<noteq> [] \<and> (\<forall>ch \<in> set (butlast ?rest). length ch = n) \<and>
        0 < length (last ?rest) \<and> length (last ?rest) \<le> n"
      using "1.IH" "1.prems" False by blast
    have b: "butlast (spec_chunks n xs) = take n xs # butlast ?rest"
      using ih by (simp only: step butlast.simps if_False)
    have l: "last (spec_chunks n xs) = last ?rest"
      using ih by (simp only: step last.simps if_False)
    have t: "length (take n xs) = n" using lt by simp
    show ?thesis
      using ih t by (simp only: b l) (simp add: step)
  qed
qed

lemma js_slice_chunk:
  assumes "0 \<le> i" "i < int (length xs)" "0 < c"
  shows "js_slice xs i (i + c) = take (nat c) (drop (nat i) xs)"
proof (cases "i + c \<le> int (length xs)")
  case True
  with assms show ?thesis by (simp add: js_slice_def Let_def min_def)
next
  case False
  with assms have "js_slice xs i (i + c) = take (nat (int (length xs) - i)) (drop (nat i) xs)"
    by (simp add: js_slice_def Let_def min_def)
  also have "\<dots> = drop (nat i) xs"
    using assms by simp
  also have "\<dots> = take (nat c) (drop (nat i) xs)"
    using assms False by simp
  finally show ?thesis .
qed

lemma build_chunks_spec:
  assumes c: "0 < c"
  shows "0 \<le> i \<Longrightarrow>
     build_chunks ts c i acc = Some (acc @ spec_chunks (nat c) (drop (nat i) ts))"
proof (induction "length ts - nat i" arbitrary: i acc rule: less_induct)
  case less
  show ?case
  proof (cases "i < int (length ts)")
    case False
    with less.prems show ?thesis
      by (subst build_chunks.simps) simp
  next
    case True
    have ne: "drop (nat i) ts \<noteq> []" using True less.prems by simp
    have d: "drop (nat (i + c)) ts = drop (nat c) (drop (nat i) ts)"
      using less.prems c by (simp add: nat_add_distrib add.commute)
    have m: "length ts - nat (i + c) < length ts - nat i"
      using True less.prems c by linarith
    have "build_chunks ts c i acc =
        build_chunks ts c (i + c) (acc @ [js_slice ts i (i + c)])"
      by (subst build_chunks.simps) (simp add: True)
    also have "\<dots> = Some ((acc @ [js_slice ts i (i + c)]) @
                       spec_chunks (nat c) (drop (nat (i + c)) ts))"
      using less.hyps [OF m] less.prems c by simp
    finally show ?thesis
      using c by (simp add: js_slice_chunk [OF less.prems True c] d spec_chunks_step [OF _ ne])
  qed
qed

lemma processTicker_None: "fst (processTicker e r t st) = None \<longleftrightarrow> t = []"
  by (auto simp: processTicker_def split: prod.splits bool.splits option.splits sum.splits)

lemma processChunk_tally:
  "length (filter (\<lambda>x. x = Some True) (fst (processChunk e r chunk st))) +
   length (filter (\<lambda>x. x = Some False) (fst (processChunk e r chunk st))) =
   length (filter (\<lambda>t. t \<noteq> []) chunk)"
proof (induction chunk arbitrary: st)
  case Nil
  then show ?case by simp
next
  case (Cons t rest)
  obtain x st1 where p: "processTicker e r t st = (x, st1)" by force
  obtain xs st2 where q: "processChunk e r rest st1 = (xs, st2)" by force
  have x: "x = None \<longleftrightarrow> t = []" using processTicker_None [of e r t st] p by simp
  have "x = None \<or> x = Some True \<or> x = Some False" by (cases x) auto
  with x Cons.IH [of st1] show ?case
    by (auto simp: p q)
qed

lemma processChunks_tally:
  "\<exists>s' f' st'. processChunks e r n i chunks (s, f, st) = (s', f', st') \<and>
     s' + f' = s + f + length (filter (\<lambda>t. t \<noteq> []) (concat chunks))"
proof (induction chunks arbitrary: i s f st)
  case Nil
  then show ?case by simp
next
  case (Cons chunk rest)
  obtain results st1 where p: "processChunk e r chunk st = (results, st1)" by force
  have t: "length (filter (\<lambda>x. x = Some True) results) +
           length (filter (\<lambda>x. x = Some False) results) =
           length (filter (\<lambda>t. t \<noteq> []) chunk)"
    using processChunk_tally [of e r chunk st] by (simp add: p)
  let ?s = "s + length (filter (\<lambda>x. x = Some True) results)"
  let ?f = "f + length (filter (\<lambda>x. x = Some False) results)"
  let ?st = "if int i < int n - 1 then st1\<lparr>trace := trace st1 @ [Sleep 1000]\<rparr> else st1"
  obtain s' f' st' where
    r: "processChunks e r n (Suc i) rest (?s, ?f, ?st) = (s', f', st')"
    and e: "s' + f' = ?s + ?f + length (filter (\<lambda>t. t \<noteq> []) (concat rest))"
    using Cons.IH [of "Suc i" ?s ?f ?st] by blast
  have "processChunks e r n i (chunk # rest) (s, f, st) = (s', f', st')"
    using r by (simp add: p Let_def)
  moreover have "s' + f' = s + f + length (filter (\<lambda>t. t \<noteq> []) (concat (chunk # rest)))"
    using e t by simp
  ultimately show ?case by blast
qed

lemma syncWithWorkers_tally:
  assumes "0 < num_or (workers options) 128"
  shows "\<exists>s f st'. syncWithWorkers e tickers options st = Some (s, f, st') \<and>
           s + f = length (filter (\<lambda>t. t \<noteq> []) tickers)"
proof -
  let ?c = "num_or (workers options) 128"
  let ?chunks = "spec_chunks (nat ?c) tickers"
  have b: "build_chunks tickers ?c 0 [] = Some ?chunks"
    using build_chunks_spec [OF assms, of 0 tickers "[]"] by simp
  have cc: "concat ?chunks = tickers"
    using assms by (simp add: concat_spec_chunks)
  obtain s f st' where
    p: "processChunks e (num_or (maxRetries options) 3) (length ?chunks) 0 ?chunks (0, 0, st)
          = (s, f, st')"
    and t: "s + f = 0 + 0 + length (filter (\<lambda>t. t \<noteq> []) (concat ?chunks))"
    using processChunks_tally [of e "num_or (maxRetries options) 3" "length ?chunks" 0 ?chunks 0 0 st]
    by blast
  have "syncWithWorkers e tickers options st = Some (s, f, st')"
    by (simp add: syncWithWorkers_def Let_def b p)
  with t cc show ?thesis by simp
qed

lemma spec_chunks_step_len:
  "0 < n \<Longrightarrow> 0 < length xs \<Longrightarrow> spec_chunks n xs = take n xs # spec_chunks n (drop n xs)"
  by (rule spec_chunks_step) auto

lemma chunks_10_3:
  "length (xs::'a list) = 10 \<Longrightarrow> map length (spec_chunks 3 xs) = [3, 3, 3, 1]"
  by (simp add: spec_chunks_step_len)

lemma fetchCompanyData_loop_requests:
  "Request t' \<in> set (snd (fetchCompanyData_loop e t a tr)) \<Longrightarrow>
   Request t' \<in> set tr \<or> t' = t"
proof (induction e t a tr rule: fetchCompanyData_loop.induct)
  case (1 e t a tr)
  show ?case
  proof (cases "a \<le> cfg_maxRetries e")
    case False
    with "1.prems" show ?thesis
      by (subst (asm) fetchCompanyData_loop.simps) simp
  next
    case True
    show ?thesis
    proof (cases "source e t (count_list tr (Request t))")
      case (Body b)
      with True "1.prems" show ?thesis
        by (subst (asm) fetchCompanyData_loop.simps)
           (auto split: option.splits prod.splits)
    next
      case (RequestError msg)
      show ?thesis
      proof (cases "a = cfg_maxRetries e")
        case True
        with RequestError "1.prems" show ?thesis
          by (subst (asm) fetchCompanyData_loop.simps) auto
      next
        case False
        have "Request t' \<in> set (snd (fetchCompanyData_loop e t (a + 1)
                 (tr @ [Request t, Sleep (cfg_requestDelay e * a)])))"
          using "1.prems" True False RequestError
          by (subst (asm) fetchCompanyData_loop.simps) simp
        from "1.IH" [OF True RequestError False this] show ?thesis by auto
      qed
    qed
  qed
qed

lemma fetchWithRetry_loop_requests:
  "Request t' \<in> set (snd (fetchWithRetry_loop e t k a le tr)) \<Longrightarrow>
   Request t' \<in> set tr \<or> t' = t"
proof (induction "nat (k + 1 - a)" arbitrary: a le tr)
  case 0
  then have "k < a" by simp
  with "0.prems" show ?case by (simp add: fetchWithRetry_loop_done)
next
  case (Suc m)
  then have le: "a \<le> k" and m: "m = nat (k + 1 - (a + 1))" by auto
  obtain res tr1 where f: "fetchCompanyData e t tr = (res, tr1)" by force
  have r1: "Request t' \<in> set tr1 \<Longrightarrow> Request t' \<in> set tr \<or> t' = t"
    using fetchCompanyData_loop_requests [of t' e t 1 tr] f
    by (simp add: fetchCompanyData_def)
  let ?tr2 = "if a < k then tr1 @ [Sleep (backoff a)] else tr1"
  have r2: "Request t' \<in> set ?tr2 \<Longrightarrow> Request t' \<in> set tr \<or> t' = t"
    using r1 by (auto split: if_splits)
  show ?case
  proof (cases res)
    case (Inl msg)
    have "fetchWithRetry_loop e t k a le tr =
        fetchWithRetry_loop e t k (a + 1) (if msg \<noteq> [] then msg else ''Unknown error'') ?tr2"
      by (subst fetchWithRetry_loop.simps) (simp add: le f Inl)
    with Suc.prems Suc.hyps(1) [OF m] r2 show ?thesis by auto
  next
    case (Inr v)
    show ?thesis
    proof (cases v)
      case None
      have "fetchWithRetry_loop e t k a le tr =
          fetchWithRetry_loop e t k (a + 1) (''No data returned for '' @ t) ?tr2"
        by (subst fetchWithRetry_loop.simps) (simp add: le f Inr None)
      with Suc.prems Suc.hyps(1) [OF m] r2 show ?thesis by auto
    next
      case (Some d)
      have "snd (fetchWithRetry_loop e t k a le tr) = tr1"
        by (subst fetchWithRetry_loop.simps) (simp add: le f Inr Some)
      with Suc.prems r1 show ?thesis by simp
    qed
  qed
qed

lemma processTicker_requests:
  "Request t' \<in> set (trace (snd (processTicker e r t st))) \<Longrightarrow>
   Request t' \<in> set (trace st) \<or> t' = t"
  using fetchWithRetry_loop_requests [of t' e t r 1 "[]" "trace st"]
  by (auto simp: processTicker_def fetchWithRetry_def
           split: if_splits prod.splits bool.splits option.splits sum.splits)

lemma processChunk_requests:
  "Request t' \<in> set (trace (snd (processChunk e r chunk st))) \<Longrightarrow>
   Request t' \<in> set (trace st) \<or> t' \<in> set chunk"
proof (induction chunk arbitrary: st)
  case Nil
  then show ?case by simp
next
  case (Cons t rest)
  obtain x st1 where p: "processTicker e r t st = (x, st1)" by force
  obtain xs st2 where q: "processChunk e r rest st1 = (xs, st2)" by force
  from Cons.prems have "Request t' \<in> set (trace st2)" by (simp add: p q)
  then have "Request t' \<in> set (trace st1) \<or> t' \<in> set rest"
    using Cons.IH [of st1] by (simp add: q)
  moreover have "Request t' \<in> set (trace st1) \<Longrightarrow> Request t' \<in> set (trace st) \<or> t' = t"
    using processTicker_requests [of t' e r t st] by (simp add: p)
  ultimately show ?case by auto
qed

lemma processChunks_requests:
  "Request t' \<in> set (trace (snd (snd (processChunks e r n i chunks (s, f, st))))) \<Longrightarrow>
   Request t' \<in> set (trace st) \<or> t' \<in> set (concat chunks)"
proof (induction chunks arbitrary: i s f st)
  case Nil
  then show ?case by simp
next
  case (Cons chunk rest)
  obtain results st1 where p: "processChunk e r chunk st = (results, st1)" by force
  let ?s = "s + length (filter (\<lambda>x. x = Some True) results)"
  let ?f = "f + length (filter (\<lambda>x. x = Some False) results)"
  let ?st = "if int i < int n - 1 then st1\<lparr>trace := trace st1 @ [Sleep 1000]\<rparr> else st1"
  have "processChunks e r n i (chunk # rest) (s, f, st) =
        processChunks e r n (Suc i) rest (?s, ?f, ?st)"
    by (simp add: p Let_def)
  with Cons.prems have "Request t' \<in> set (trace ?st) \<or> t' \<in> set (concat rest)"
    using Cons.IH [of "Suc i" ?s ?f ?st] by simp
  moreover have "Request t' \<in> set (trace ?st) \<Longrightarrow> Request t' \<in> set (trace st1)"
    by (auto split: if_splits)
  moreover have "Request t' \<in> set (trace st1) \<Longrightarrow> Request t' \<in> set (trace st) \<or> t' \<in> set chunk"
    using processChunk_requests [of t' e r chunk st] by (simp add: p)
  ultimately show ?case by auto
qed

lemma syncWithWorkers_requests:
  assumes "0 < num_or (workers options) 128"
    and "syncWithWorkers e tickers options st = Some (s, f, st')"
    and "Request t' \<in> set (trace st')"
  shows "Request t' \<in> set (trace st) \<or> t' \<in> set tickers"
proof -
  let ?c = "num_or (workers options) 128"
  let ?chunks = "spec_chunks (nat ?c) tickers"
  have b: "build_chunks tickers ?c 0 [] = Some ?chunks"
    using build_chunks_spec [OF assms(1), of 0 tickers "[]"] by simp
  have cc: "concat ?chunks = tickers"
    using assms(1) by (simp add: concat_spec_chunks)
  have "processChunks e (num_or (maxRetries options) 3) (length ?chunks) 0 ?chunks (0, 0, st)
          = (s, f, st')"
    using assms(2) by (simp add: syncWithWorkers_def Let_def b)
  then show ?thesis
    using processChunks_requests [of t' e "num_or (maxRetries options) 3" "length ?chunks" 0
             ?chunks 0 0 st] assms(3) cc
    by simp
qed

text \<open>
  Claim C4. For a non-empty list and a concurrency \<open>c > 0\<close> the chunk loop ends with
  chunks whose concatenation is the list, all of size \<open>c\<close> except the last, which has
  between 1 and \<open>c\<close> elements, and the Scheduler processes these chunks in order; ten
  tickers with concurrency 3 give chunks of sizes 3, 3, 3, 1. If no ticker is the empty string, the Scheduler returns, and its two
  counters add up to the number of tickers, whatever each fetch and upsert did.
\<close>

theorem syncWithWorkers_chunks_and_tally:
  assumes "tickers \<noteq> []" and "workers options = Some c" and "0 < c"
  shows "\<exists>chunks. build_chunks tickers c 0 [] = Some chunks \<and>
           syncWithWorkers e tickers options st =
             Some (processChunks e (num_or (maxRetries options) 3) (length chunks) 0 chunks
                     (0, 0, st)) \<and>
           concat chunks = tickers \<and> chunks \<noteq> [] \<and>
           (\<forall>ch \<in> set (butlast chunks). int (length ch) = c) \<and>
           0 < length (last chunks) \<and> int (length (last chunks)) \<le> c \<and>
           (length tickers = 10 \<and> c = 3 \<longrightarrow> map length chunks = [3, 3, 3, 1]) \<and>
           ((\<forall>t \<in> set tickers. t \<noteq> []) \<longrightarrow>
              (\<exists>s f st'. syncWithWorkers e tickers options st = Some (s, f, st') \<and>
                          s + f = length tickers))"
proof -
  let ?chunks = "spec_chunks (nat c) tickers"
  have n: "0 < nat c" using assms(3) by simp
  have w: "0 < num_or (workers options) 128"
    using assms(2,3) by (simp add: num_or_def)
  have b: "build_chunks tickers c 0 [] = Some ?chunks"
    using build_chunks_spec [OF assms(3), of 0 tickers "[]"] by simp
  have run: "syncWithWorkers e tickers options st =
             Some (processChunks e (num_or (maxRetries options) 3) (length ?chunks) 0 ?chunks
                     (0, 0, st))"
    using assms(2,3) by (simp add: syncWithWorkers_def Let_def b num_or_def)
  have cc: "concat ?chunks = tickers"
    using n by (rule concat_spec_chunks)
  have l: "?chunks \<noteq> [] \<and> (\<forall>ch \<in> set (butlast ?chunks). length ch = nat c) \<and>
           0 < length (last ?chunks) \<and> length (last ?chunks) \<le> nat c"
    using n assms(1) by (rule spec_chunks_lengths)
  have l1: "?chunks \<noteq> []" and l3: "0 < length (last ?chunks)"
    using l by blast+
  have l2: "\<forall>ch \<in> set (butlast ?chunks). int (length ch) = c"
    using l assms(3) by auto
  have l4: "int (length (last ?chunks)) \<le> c"
    using l assms(3) by linarith
  have ten: "length tickers = 10 \<and> c = 3 \<longrightarrow> map length ?chunks = [3, 3, 3, 1]"
    using chunks_10_3 [of tickers] by (auto simp: numeral_3_eq_3)
  have tally: "(\<forall>t \<in> set tickers. t \<noteq> []) \<longrightarrow>
              (\<exists>s f st'. syncWithWorkers e tickers options st = Some (s, f, st') \<and>
                          s + f = length tickers)"
  proof
    assume "\<forall>t \<in> set tickers. t \<noteq> []"
    then have "filter (\<lambda>t. t \<noteq> []) tickers = tickers" by simp
    with syncWithWorkers_tally [OF w, of e tickers st]
    show "\<exists>s f st'. syncWithWorkers e tickers options st = Some (s, f, st') \<and>
                          s + f = length tickers"
      by simp
  qed
  show ?thesis
    by (rule exI [of _ ?chunks]) (intro conjI b run cc l1 l2 l3 l4 ten tally)
qed

theorem syncWithWorkers_chunks_and_tally_witness:
  "(universe10 \<noteq> [] \<and> workers (no_options\<lparr>workers := Some 3\<rparr>) = Some 3 \<and> (0::int) < 3 \<and>
    length universe10 = 10 \<and> [] \<notin> set universe10) \<and>
   (\<exists>chunks. build_chunks universe10 3 0 [] = Some chunks \<and>
           concat chunks = universe10 \<and> map length chunks = [3, 3, 3, 1] \<and>
           (\<exists>s f st'. syncWithWorkers env_vic universe10 (no_options\<lparr>workers := Some 3\<rparr>)
                         initial_state = Some (s, f, st') \<and>
                       s + f = 10))"
proof -
  have h: "universe10 \<noteq> []" "workers (no_options\<lparr>workers := Some 3\<rparr>) = Some 3"
    "(0::int) < 3" "length universe10 = 10"
    by (simp_all add: universe10_def no_options_def)
  have n: "[] \<notin> set universe10"
    by (simp add: universe10_def)
  then have ne: "\<forall>t \<in> set universe10. t \<noteq> []"
    by blast
  obtain chunks where all:
    "build_chunks universe10 3 0 [] = Some chunks \<and>
     syncWithWorkers env_vic universe10 (no_options\<lparr>workers := Some 3\<rparr>) initial_state =
       Some (processChunks env_vic (num_or (maxRetries (no_options\<lparr>workers := Some 3\<rparr>)) 3)
               (length chunks) 0 chunks (0, 0, initial_state)) \<and>
     concat chunks = universe10 \<and> chunks \<noteq> [] \<and>
     (\<forall>ch \<in> set (butlast chunks). int (length ch) = 3) \<and>
     0 < length (last chunks) \<and> int (length (last chunks)) \<le> 3 \<and>
     (length universe10 = 10 \<and> (3::int) = 3 \<longrightarrow> map length chunks = [3, 3, 3, 1]) \<and>
     ((\<forall>t \<in> set universe10. t \<noteq> []) \<longrightarrow>
        (\<exists>s f st'. syncWithWorkers env_vic universe10 (no_options\<lparr>workers := Some 3\<rparr>)
                      initial_state = Some (s, f, st') \<and>
                    s + f = length universe10))"
    using syncWithWorkers_chunks_and_tally [OF h(1,2,3), of env_vic initial_state] ..
  have c1: "build_chunks universe10 3 0 [] = Some chunks"
    using all by (elim conjE)
  have c2: "concat chunks = universe10"
    using all by (elim conjE)
  have c3: "length universe10 = 10 \<and> (3::int) = 3 \<longrightarrow> map length chunks = [3, 3, 3, 1]"
    using all by (elim conjE)
  have c4: "(\<forall>t \<in> set universe10. t \<noteq> []) \<longrightarrow>
              (\<exists>s f st'. syncWithWorkers env_vic universe10 (no_options\<lparr>workers := Some 3\<rparr>)
                            initial_state = Some (s, f, st') \<and>
                          s + f = length universe10)"
    using all by (elim conjE)
  have m: "map length chunks = [3, 3, 3, 1]"
    using c3 h(4) by simp
  have inner: "\<exists>s f st'. syncWithWorkers env_vic universe10 (no_options\<lparr>workers := Some 3\<rparr>)
                         initial_state = Some (s, f, st') \<and> s + f = 10"
    using c4 ne h(4) by simp
  have ex: "\<exists>chunks. build_chunks universe10 3 0 [] = Some chunks \<and>
           concat chunks = universe10 \<and> map length chunks = [3, 3, 3, 1] \<and>
           (\<exists>s f st'. syncWithWorkers env_vic universe10 (no_options\<lparr>workers := Some 3\<rparr>)
                         initial_state = Some (s, f, st') \<and>
                       s + f = 10)"
    by (rule exI [of _ chunks]) (intro conjI c1 c2 m inner)
  show ?thesis
    by (intro conjI h n ex)
qed

text \<open>
  Claim C9. The task of an empty ticker returns \<open>null\<close> without any effect, and the
  tally counts only the other results: the two counters add up to the number of
  non-empty tickers, which is less than the number of tickers as soon as one of them
  is empty.
\<close>

theorem syncWithWorkers_skips_empty:
  assumes "0 < num_or (workers options) 128"
  shows "processTicker e r [] st = (None, st) \<and>
         (\<exists>s f st'. syncWithWorkers e tickers options st = Some (s, f, st') \<and>
                     s + f = length (filter (\<lambda>t. t \<noteq> []) tickers) \<and>
                     ([] \<in> set tickers \<longrightarrow> s + f < length tickers))"
proof -
  have p: "processTicker e r [] st = (None, st)"
    by (simp add: processTicker_def)
  obtain s f st' where
    r: "syncWithWorkers e tickers options st = Some (s, f, st')"
    and t: "s + f = length (filter (\<lambda>t. t \<noteq> []) tickers)"
    using syncWithWorkers_tally [OF assms, of e tickers st] by blast
  have "[] \<in> set tickers \<longrightarrow> s + f < length tickers"
    using t length_filter_less [of "[]" tickers "\<lambda>t. t \<noteq> []"] by simp
  with p r t show ?thesis by blast
qed

theorem syncWithWorkers_skips_empty_witness:
  "(0 < num_or (workers no_options) 128 \<and> [] \<in> set [''VIC'', [], ''VCB'']) \<and>
   processTicker env_vic 3 [] initial_state = (None, initial_state) \<and>
   (\<exists>s f st'. syncWithWorkers env_vic [''VIC'', [], ''VCB''] no_options initial_state
                 = Some (s, f, st') \<and> s + f = 2 \<and> s + f < 3)"
proof -
  have h: "0 < num_or (workers no_options) 128"
    by (simp add: no_options_def num_or_def)
  show ?thesis
    using syncWithWorkers_skips_empty [OF h, of env_vic 3 initial_state "[''VIC'', [], ''VCB'']"] h
    by auto
qed

text \<open>
  Claim C5. \<open>filterTickers\<close> is the index-range step, then the explicit-subset step
  on its result, then the skip-if-present step on that; and on a universe of ten
  tickers the index-range step with start 2 and end 5 gives the tickers at positions
  2, 3 and 4 in their order, which is the whole result when no other filter is set.
\<close>

theorem filterTickers_order_and_range:
  "filterTickers d u options =
     filterExisting d options (filterBySpecific options (filterByIndex options u u)) \<and>
   (length u = 10 \<and> startIndex options = Some 2 \<and> endIndex options = Some 5 \<longrightarrow>
      filterByIndex options u u = [u ! 2, u ! 3, u ! 4]) \<and>
   (length u = 10 \<and> startIndex options = Some 2 \<and> endIndex options = Some 5 \<and>
    specificTickers options = None \<and> skipExisting options \<noteq> Some True \<longrightarrow>
      filterTickers d u options = [u ! 2, u ! 3, u ! 4])"
proof (intro conjI impI)
  show "filterTickers d u options =
     filterExisting d options (filterBySpecific options (filterByIndex options u u))"
    by (rule filterTickers_steps)
next
  assume "length u = 10 \<and> startIndex options = Some 2 \<and> endIndex options = Some 5"
  then show "filterByIndex options u u = [u ! 2, u ! 3, u ! 4]"
    by (simp add: filterByIndex_2_5)
next
  assume h: "length u = 10 \<and> startIndex options = Some 2 \<and> endIndex options = Some 5 \<and>
    specificTickers options = None \<and> skipExisting options \<noteq> Some True"
  then have "filterByIndex options u u = [u ! 2, u ! 3, u ! 4]"
    by (simp add: filterByIndex_2_5)
  with h show "filterTickers d u options = [u ! 2, u ! 3, u ! 4]"
    by (simp add: filterTickers_steps filterBySpecific_def filterExisting_def)
qed

theorem filterTickers_order_and_range_witness:
  "(length universe10 = 10 \<and>
    startIndex (no_options\<lparr>startIndex := Some 2, endIndex := Some 5\<rparr>) = Some 2 \<and>
    endIndex (no_options\<lparr>startIndex := Some 2, endIndex := Some 5\<rparr>) = Some 5 \<and>
    specificTickers (no_options\<lparr>startIndex := Some 2, endIndex := Some 5\<rparr>) = None \<and>
    skipExisting (no_options\<lparr>startIndex := Some 2, endIndex := Some 5\<rparr>) \<noteq> Some True) \<and>
   filterByIndex (no_options\<lparr>startIndex := Some 2, endIndex := Some 5\<rparr>)
     universe10 universe10 = [''CTG'', ''FPT'', ''HPG''] \<and>
   filterTickers empty_db universe10 (no_options\<lparr>startIndex := Some 2, endIndex := Some 5\<rparr>)
     = [''CTG'', ''FPT'', ''HPG'']"
  using filterTickers_order_and_range
          [of empty_db universe10 "no_options\<lparr>startIndex := Some 2, endIndex := Some 5\<rparr>"]
  by (simp add: universe10_def no_options_def filterBySpecific_def filterExisting_def)

text \<open>
  Claim C6. With skipExisting set, the result of \<open>filterTickers\<close> is the candidate
  list (what the first two steps left) without exactly the tickers for which
  \<open>findByTicker\<close> finds a row, the others in their order.
\<close>

theorem filterTickers_skipExisting:
  assumes "skipExisting options = Some True"
  shows "filterTickers d u options =
           filter (\<lambda>t. findByTicker d t = None)
             (filterBySpecific options (filterByIndex options u u))"
  using assms by (simp add: filterTickers_steps filterExisting_skip)

theorem filterTickers_skipExisting_witness:
  "skipExisting (no_options\<lparr>skipExisting := Some True\<rparr>) = Some True \<and>
   filterTickers db_vcb universe10 (no_options\<lparr>skipExisting := Some True\<rparr>) =
     [''ACB'', ''BID'', ''CTG'', ''FPT'', ''HPG'', ''MBB'', ''MSN'', ''VIC'', ''VNM'']"
proof -
  have e: "filter (\<lambda>t. findByTicker db_vcb t = None) universe10 =
     [''ACB'', ''BID'', ''CTG'', ''FPT'', ''HPG'', ''MBB'', ''MSN'', ''VIC'', ''VNM'']"
    by code_simp
  show ?thesis
    using filterTickers_skipExisting
            [of "no_options\<lparr>skipExisting := Some True\<rparr>" db_vcb universe10]
    by (simp add: e no_options_def filterBySpecific_def filterByIndex_def)
qed

text \<open>
  Claim C10. An explicit subset keeps, of the range-filtered universe, the tickers
  that occur in the subset after upper-casing and trimming, in the universe's order
  (an empty subset list counts as no subset and keeps them all). A subset entry that
  is not in the range-filtered universe is not in the result of \<open>filterTickers\<close>, and
  the Scheduler run on that result makes no request for it.
\<close>

theorem filterBySpecific_intersection:
  assumes "specificTickers options = Some given"
  shows "filterBySpecific options xs =
           (if given = [] then xs
            else filter (\<lambda>t. t \<in> set (map (\<lambda>s. trim (toUpperCase s)) given)) xs) \<and>
         (s \<in> set given \<and> trim (toUpperCase s) \<notin> set (filterByIndex options u u) \<longrightarrow>
            trim (toUpperCase s) \<notin> set (filterTickers d u options) \<and>
            (0 < num_or (workers options) 128 \<and>
             Request (trim (toUpperCase s)) \<notin> set (trace st) \<longrightarrow>
               (\<exists>n f st'. syncWithWorkers e (filterTickers d u options) options st
                             = Some (n, f, st') \<and>
                           Request (trim (toUpperCase s)) \<notin> set (trace st'))))"
proof -
  have a: "filterBySpecific options xs =
           (if given = [] then xs
            else filter (\<lambda>t. t \<in> set (map (\<lambda>s. trim (toUpperCase s)) given)) xs)"
    using assms by (simp add: filterBySpecific_def)
  have "set (filterBySpecific options ys) \<subseteq> set ys" for ys
    by (auto simp: filterBySpecific_def split: option.splits if_splits)
  moreover have "set (filterExisting d options ys) \<subseteq> set ys" for ys
    by (auto simp: filterExisting_def Let_def)
  ultimately have sub: "set (filterTickers d u options) \<subseteq> set (filterByIndex options u u)"
    unfolding filterTickers_steps by blast
  have b: "\<exists>n f st'. syncWithWorkers e (filterTickers d u options) options st
                             = Some (n, f, st') \<and>
                           Request (trim (toUpperCase s)) \<notin> set (trace st')"
    if w: "0 < num_or (workers options) 128"
      and notin: "trim (toUpperCase s) \<notin> set (filterTickers d u options)"
      and fresh: "Request (trim (toUpperCase s)) \<notin> set (trace st)"
  proof -
    obtain n f st' where
      r: "syncWithWorkers e (filterTickers d u options) options st = Some (n, f, st')"
      using syncWithWorkers_tally [OF w, of e "filterTickers d u options" st] by blast
    have "Request (trim (toUpperCase s)) \<notin> set (trace st')"
      using syncWithWorkers_requests [OF w r, of "trim (toUpperCase s)"] notin fresh
      by blast
    with r show ?thesis by blast
  qed
  from a sub b show ?thesis by blast
qed

lemma trim_upper_examples:
  "trim (toUpperCase ''d'') = ''D''" "trim (toUpperCase '' b '') = ''B''"
  "trim (toUpperCase ''a'') = ''A''" "trim (toUpperCase ''zzz'') = ''ZZZ''"
  by code_simp+

theorem filterBySpecific_intersection_witness:
  "(specificTickers (no_options\<lparr>specificTickers := Some [''d'', '' b '', ''a'', ''zzz''],
                               workers := Some 2\<rparr>)
      = Some [''d'', '' b '', ''a'', ''zzz''] \<and>
    ''zzz'' \<in> set [''d'', '' b '', ''a'', ''zzz''] \<and>
    trim (toUpperCase ''zzz'') \<notin>
      set (filterByIndex (no_options\<lparr>specificTickers := Some [''d'', '' b '', ''a'', ''zzz''],
                                      workers := Some 2\<rparr>)
             [''A'', ''B'', ''C'', ''D''] [''A'', ''B'', ''C'', ''D'']) \<and>
    0 < num_or (workers (no_options\<lparr>specificTickers := Some [''d'', '' b '', ''a'', ''zzz''],
                                      workers := Some 2\<rparr>)) 128 \<and>
    Request (trim (toUpperCase ''zzz'')) \<notin> set (trace initial_state)) \<and>
   filterBySpecific (no_options\<lparr>specificTickers := Some [''d'', '' b '', ''a'', ''zzz''],
                                 workers := Some 2\<rparr>) [''A'', ''B'', ''C'', ''D'']
     = [''A'', ''B'', ''D''] \<and>
   ''ZZZ'' \<notin> set (filterTickers empty_db [''A'', ''B'', ''C'', ''D'']
                    (no_options\<lparr>specificTickers := Some [''d'', '' b '', ''a'', ''zzz''],
                                 workers := Some 2\<rparr>)) \<and>
   (\<exists>n f st'. syncWithWorkers env_no_data
                 (filterTickers empty_db [''A'', ''B'', ''C'', ''D'']
                    (no_options\<lparr>specificTickers := Some [''d'', '' b '', ''a'', ''zzz''],
                                 workers := Some 2\<rparr>))
                 (no_options\<lparr>specificTickers := Some [''d'', '' b '', ''a'', ''zzz''],
                              workers := Some 2\<rparr>) initial_state = Some (n, f, st') \<and>
               Request ''ZZZ'' \<notin> set (trace st'))"
  using filterBySpecific_intersection
          [of "no_options\<lparr>specificTickers := Some [''d'', '' b '', ''a'', ''zzz''],
                           workers := Some 2\<rparr>"
              "[''d'', '' b '', ''a'', ''zzz'']" "[''A'', ''B'', ''C'', ''D'']" "''zzz''"
              "[''A'', ''B'', ''C'', ''D'']" empty_db initial_state env_no_data]
  by (simp add: no_options_def filterByIndex_def num_or_def initial_state_def
        trim_upper_examples)

section \<open>Record Transformer and ticker case: evaluations\<close>

lemma upper_examples: "toUpperCase ''vic'' = ''VIC''" "toUpperCase ''VIC'' = ''VIC''"
  by code_simp+

lemma parsePriceTimestamp_example:
  "parsePriceTimestamp (Some (JStr ''05/03/2024 09:30:00'')) =
     (Some (JDate (LocalTime 2024 2 5 9 30 0)), [])"
  by (simp add: parsePriceTimestamp_def at_index_def nonempty_def makeDate_def parseInt_def
      parse_unsigned_def parse_digits_def digits_value_def is_digit_in_def digit_val_def
      is_space_def)

lemma parsePriceTimestamp_not_a_date:
  "parsePriceTimestamp (Some (JStr ''not-a-date'')) = (None, [])"
  by (simp add: parsePriceTimestamp_def at_index_def nonempty_def)

lemma parsePriceTimestamp_nan:
  "parsePriceTimestamp (Some (JStr ''soon/ish/maybe at:some:time'')) =
     (Some (JDate InvalidDate), [])"
  by (simp add: parsePriceTimestamp_def at_index_def nonempty_def makeDate_def parseInt_def
      parse_unsigned_def parse_digits_def digits_value_def is_digit_in_def digit_val_def
      is_space_def)

text \<open>A timestamp in the source's layout; month index 2 is March.\<close>

lemma transform_price_timestamp_example:
  "fst (transformSimplizeData dp vic_summary) ''priceTimestamp'' =
     Some (JDate (LocalTime 2024 2 5 9 30 0)) \<and>
   snd (transformSimplizeData dp vic_summary) = []"
  by (simp add: transformSimplizeData_def vic_summary_def parsePriceTimestamp_example
        parseAnalysisUpdated_def at_index_def nonempty_def makeDate_def parseInt_def
        parse_unsigned_def parse_digits_def digits_value_def is_digit_in_def digit_val_def
        is_space_def split: prod.splits)

text \<open>
  Claim C7 at its own example. For the price timestamp "not-a-date" the Transformer
  returns the record without the field, and logs nothing: the warning sits in a
  \<open>catch\<close> block, and neither \<open>split\<close> nor \<open>parseInt\<close> nor the \<open>Date\<close> constructor
  throws on a string. For a timestamp with all six parts present but not numeric the
  field is not omitted either: it holds an invalid date, again without a warning.
\<close>

theorem transform_unparseable_timestamp_is_silent:
  "snd (transformSimplizeData dp bad_date_summary) = [] \<and>
   fst (transformSimplizeData dp bad_date_summary) ''priceTimestamp'' = None \<and>
   fst (transformSimplizeData dp bad_date_summary) ''ticker'' = Some (JStr ''VIC'') \<and>
   snd (transformSimplizeData dp nan_date_summary) = [] \<and>
   fst (transformSimplizeData dp nan_date_summary) ''priceTimestamp'' =
     Some (JDate InvalidDate)"
  by (simp add: transformSimplizeData_def bad_date_summary_def nan_date_summary_def
        parsePriceTimestamp_not_a_date parsePriceTimestamp_nan parseAnalysisUpdated_def
        copied_fields_def)

text \<open>
  Where the code does normalise the case: the tickers \<open>loadTickers\<close> returns are
  upper case and not empty, and \<open>findByTicker\<close> looks up the upper-cased argument.
\<close>

lemma upper_char_idem: "upper_char (upper_char c) = upper_char c"
proof -
  have "of_char (char_of (of_char c - (32::nat))) = (of_char c - (32::nat)) mod 256"
    by simp
  then show ?thesis
    by (auto simp: upper_char_def Let_def)
qed

lemma toUpperCase_idem: "toUpperCase (toUpperCase s) = toUpperCase s"
  by (simp add: toUpperCase_def upper_char_idem)

lemma set_trim: "set (trim s) \<subseteq> set s"
proof -
  have "set (dropWhile is_space (rev (dropWhile is_space s))) \<subseteq> set (rev (dropWhile is_space s))"
    by (rule set_dropWhileD [THEN subsetI]) 
  also have "\<dots> \<subseteq> set s"
    using set_dropWhileD [of _ is_space s] by auto
  finally show ?thesis by (simp add: trim_def)
qed

lemma upper_fixed_iff: "toUpperCase s = s \<longleftrightarrow> (\<forall>c \<in> set s. upper_char c = c)"
  by (induction s) (auto simp: toUpperCase_def)

lemma trim_upper_is_upper: "toUpperCase (trim (toUpperCase s)) = trim (toUpperCase s)"
proof -
  have "\<forall>c \<in> set (toUpperCase s). upper_char c = c"
    by (auto simp: toUpperCase_def upper_char_idem)
  with set_trim [of "toUpperCase s"] show ?thesis
    by (auto simp: upper_fixed_iff)
qed

lemma upper_trim_all_upper:
  "upper_trim_all xs = Inr out \<Longrightarrow> \<forall>t \<in> set out. toUpperCase t = t"
proof (induction xs arbitrary: out rule: upper_trim_all.induct)
  case 1
  then show ?case by simp
next
  case (2 s rest)
  then show ?case
    by (auto simp: trim_upper_is_upper split: sum.splits)
qed simp_all

lemma loadTickers_upper:
  "loadTickers file = Inr ts \<Longrightarrow> \<forall>t \<in> set ts. toUpperCase t = t \<and> t \<noteq> []"
  by (auto simp: loadTickers_def split: file_content.splits sum.splits
           dest: upper_trim_all_upper)

lemma findByTicker_upper: "findByTicker d (toUpperCase t) = findByTicker d t"
  by (simp add: findByTicker_def toUpperCase_idem)

text \<open>
  Claim C8 at an input where it fails. The universe ticker VIC is fetched, the source
  serves the summary with the ticker in lower case, the Transformer copies it and
  \<open>upsert\<close> stores it as served; \<open>findByTicker\<close> upper-cases its argument and so does
  not find the row, neither under "vic" nor under "VIC".
\<close>

theorem lowercase_ticker_stored_not_found:
  "fst (processTicker env_lowercase 3 ''VIC'' initial_state) = Some True \<and>
   map (\<lambda>r. cols r ''ticker'')
     (rows (db (snd (processTicker env_lowercase 3 ''VIC'' initial_state))))
     = [Some (JStr ''vic'')] \<and>
   findByTicker (db (snd (processTicker env_lowercase 3 ''VIC'' initial_state))) ''vic''
     = None \<and>
   findByTicker (db (snd (processTicker env_lowercase 3 ''VIC'' initial_state))) ''VIC''
     = None"
proof -
  let ?c = "fst (transformSimplizeData (dateParse env_lowercase) lowercase_summary)"
  let ?vals = "projr (store_all no_cast
                 (zip insert_columns (map (\<lambda>p. prepareValue (?c p)) value_props)))"
  have f: "fetchWithRetry env_lowercase ''VIC'' 3 [] =
     (\<lparr>ticker = ''VIC'', success = True, error = None, data = Some ?c, attempts = 1\<rparr>,
      [] @ Request ''VIC'' #
        map Warn (snd (transformSimplizeData (dateParse env_lowercase) lowercase_summary)))"
    by (rule fetchWithRetry_first_ok) (simp_all add: env_lowercase_def)
  have t: "?c ''ticker'' = Some (JStr ''vic'')"
    by (simp add: transformSimplizeData_def copied_fields_def lowercase_summary_def
          split: prod.splits)
  have "isl (store_all no_cast
               (zip insert_columns (map (\<lambda>p. prepareValue (?c p)) value_props))) = False"
    by code_simp
  then have conv: "store_all no_cast
               (zip insert_columns (map (\<lambda>p. prepareValue (?c p)) value_props)) = Inr ?vals"
    by (rule Inr_projr)
  have acc: "db_rejects env_lowercase (map (\<lambda>p. prepareValue (?c p)) value_props) = None"
    by (simp add: env_lowercase_def)
  have uniq: "distinct (map (\<lambda>r. cols r ''ticker'') (rows empty_db))"
    and none: "find (\<lambda>x. cols x ''ticker'' = Some (JStr (take 20 ''vic''))) (rows empty_db)
                 = None"
    by (simp_all add: empty_db_def)
  let ?now = "clock env_lowercase ([] @ Request ''VIC'' #
        map Warn (snd (transformSimplizeData (dateParse env_lowercase) lowercase_summary)))"
  obtain r d' where
    u: "upsert (db_rejects env_lowercase) no_cast ?now ?c empty_db = Inr (r, d')"
    and g: "filter (\<lambda>x. cols x ''ticker'' = Some (JStr (take 20 ''vic''))) (rows d') = [r]"
    and rows: "find (\<lambda>x. cols x ''ticker'' = Some (JStr (take 20 ''vic''))) (rows empty_db)
                 = None \<longrightarrow> rows d' = rows empty_db @ [r]"
    using upsert_effect [of "db_rejects env_lowercase" ?c no_cast ?vals "''vic''" empty_db ?now,
            OF acc conv t uniq]
    by (elim exE conjE) (rule that)
  have r1: "rows d' = [r]"
    using rows none by (simp add: empty_db_def)
  have "r \<in> set (filter (\<lambda>x. cols x ''ticker'' = Some (JStr (take 20 ''vic''))) (rows d'))"
    by (simp only: g list.set_intros)
  then have rt: "cols r ''ticker'' = Some (JStr ''vic'')"
    by simp
  have cast: "db_cast env_lowercase = no_cast"
    by (simp add: env_lowercase_def)
  have p: "processTicker env_lowercase 3 ''VIC'' initial_state =
             (Some True, \<lparr>trace = [] @ Request ''VIC'' #
                map Warn (snd (transformSimplizeData (dateParse env_lowercase) lowercase_summary)),
               db = d'\<rparr>)"
    using u by (simp add: processTicker_def initial_state_def f cast)
  show ?thesis
    by (simp add: p r1 rt findByTicker_def upper_examples)
qed

end
